theory Spec2Isabelle
  imports Complex_Main "HOL-Library.Multiset" "HOL-Library.List_Lexorder"
begin

section \<open>JavaScript numbers\<close>

text \<open>
  The scoring worker (\<^verbatim>\<open>score.worker.ts\<close>) computes with JavaScript numbers. They are
  modelled as exact reals extended with the three special values of IEEE 754 that the
  code can observe: \<open>NaN\<close> (which \<^verbatim>\<open>Number.isNaN\<close> tests for) and the two infinities
  (which a division by zero produces). Rounding, overflow and the sign of zero are not
  modelled: \<open>Fin x\<close> is the number \<open>x\<close>, computed with exactly.
  A read of \<^verbatim>\<open>undefined\<close> that is only ever used in arithmetic is \<open>NaN\<close>.
\<close>

datatype jsnum = NaN | PInf | NInf | Fin real

fun jsAdd :: "jsnum \<Rightarrow> jsnum \<Rightarrow> jsnum" where
  "jsAdd (Fin a) (Fin b) = Fin (a + b)"
| "jsAdd NaN _ = NaN"
| "jsAdd _ NaN = NaN"
| "jsAdd PInf NInf = NaN"
| "jsAdd NInf PInf = NaN"
| "jsAdd PInf _ = PInf"
| "jsAdd NInf _ = NInf"
| "jsAdd _ PInf = PInf"
| "jsAdd _ NInf = NInf"

fun jsNeg :: "jsnum \<Rightarrow> jsnum" where
  "jsNeg (Fin a) = Fin (- a)"
| "jsNeg NaN = NaN"
| "jsNeg PInf = NInf"
| "jsNeg NInf = PInf"

text \<open>The sign of a number other than \<open>NaN\<close>: \<open>1\<close>, \<open>0\<close> or \<open>-1\<close>.\<close>

fun jsSign :: "jsnum \<Rightarrow> int" where
  "jsSign (Fin a) = (if a < 0 then - 1 else if a = 0 then 0 else 1)"
| "jsSign PInf = 1"
| "jsSign NInf = - 1"
| "jsSign NaN = 0"

definition signedInf :: "int \<Rightarrow> jsnum" where
  "signedInf s = (if s < 0 then NInf else PInf)"

fun jsMul :: "jsnum \<Rightarrow> jsnum \<Rightarrow> jsnum" where
  "jsMul (Fin a) (Fin b) = Fin (a * b)"
| "jsMul NaN _ = NaN"
| "jsMul _ NaN = NaN"
| "jsMul x y = (if jsSign x * jsSign y = 0 then NaN else signedInf (jsSign x * jsSign y))"

text \<open>
  Division: \<open>0 / 0\<close> and \<open>\<infinity> / \<infinity>\<close> are \<open>NaN\<close>, a non-zero number over zero is an
  infinity, a finite number over an infinity is zero.
\<close>

fun jsDiv :: "jsnum \<Rightarrow> jsnum \<Rightarrow> jsnum" where
  "jsDiv (Fin a) (Fin b) =
     (if b = 0 then (if a = 0 then NaN else signedInf (jsSign (Fin a))) else Fin (a / b))"
| "jsDiv NaN _ = NaN"
| "jsDiv _ NaN = NaN"
| "jsDiv (Fin a) _ = Fin 0"
| "jsDiv x (Fin b) = signedInf (jsSign x * (if b < 0 then - 1 else 1))"
| "jsDiv _ _ = NaN"

fun jsAbs :: "jsnum \<Rightarrow> jsnum" where
  "jsAbs (Fin a) = Fin \<bar>a\<bar>"
| "jsAbs NaN = NaN"
| "jsAbs _ = PInf"

text \<open>\<^verbatim>\<open>Math.max\<close> of two numbers: \<open>NaN\<close> if either is.\<close>

fun jsMax :: "jsnum \<Rightarrow> jsnum \<Rightarrow> jsnum" where
  "jsMax (Fin a) (Fin b) = Fin (max a b)"
| "jsMax NaN _ = NaN"
| "jsMax _ NaN = NaN"
| "jsMax PInf _ = PInf"
| "jsMax _ PInf = PInf"
| "jsMax NInf y = y"
| "jsMax x NInf = x"

fun isNaN :: "jsnum \<Rightarrow> bool" where
  "isNaN NaN = True"
| "isNaN _ = False"

fun isFin :: "jsnum \<Rightarrow> bool" where
  "isFin (Fin _) = True"
| "isFin _ = False"

fun realOf :: "jsnum \<Rightarrow> real" where
  "realOf (Fin a) = a"
| "realOf _ = 0"

text \<open>The comparison \<^verbatim>\<open><\<close>: false whenever an operand is \<open>NaN\<close>.\<close>

fun jsLess :: "jsnum \<Rightarrow> jsnum \<Rightarrow> bool" where
  "jsLess (Fin a) (Fin b) = (a < b)"
| "jsLess NaN _ = False"
| "jsLess _ NaN = False"
| "jsLess NInf y = (y \<noteq> NInf)"
| "jsLess x PInf = (x \<noteq> PInf)"
| "jsLess _ _ = False"

instantiation jsnum :: "{plus, minus, times, inverse}"
begin

definition plus_jsnum :: "jsnum \<Rightarrow> jsnum \<Rightarrow> jsnum" where
  "plus_jsnum a b = jsAdd a b"

definition minus_jsnum :: "jsnum \<Rightarrow> jsnum \<Rightarrow> jsnum" where
  "minus_jsnum a b = jsAdd a (jsNeg b)"

definition times_jsnum :: "jsnum \<Rightarrow> jsnum \<Rightarrow> jsnum" where
  "times_jsnum a b = jsMul a b"

definition divide_jsnum :: "jsnum \<Rightarrow> jsnum \<Rightarrow> jsnum" where
  "divide_jsnum a b = jsDiv a b"

definition inverse_jsnum :: "jsnum \<Rightarrow> jsnum" where
  "inverse_jsnum a = jsDiv (Fin 1) a"

instance ..

end

text \<open>The literal \<^verbatim>\<open>1e-10\<close> of \<^verbatim>\<open>normalizeMatrix\<close>.\<close>

definition epsilon :: real where
  "epsilon = 1 / 10 ^ 10"

section \<open>Data model\<close>

text \<open>
  Modelled from the spec: the declarations of \<^verbatim>\<open>CLTGraphNode\<close> and \<^verbatim>\<open>CLTGraphLink\<close>
  (\<^verbatim>\<open>./graph-types\<close>, imported by the worker) are not part of the sources at hand. The
  fields are the ones the worker reads, typed as section 3 of the specification types
  them: identifiers, feature types and layers are strings, \<open>ctx_idx\<close> is an integer,
  \<open>feature\<close> is an optional integer, \<open>token_prob\<close> and \<open>weight\<close> are numbers.
\<close>

record CLTGraphNode =
  node_id :: string
  feature_type :: string
  layer :: string
  ctx_idx :: int
  feature :: "int option"
  token_prob :: jsnum

record CLTGraphLink =
  source :: string
  target :: string
  weight :: jsnum

record WorkerGraph =
  nodes :: "CLTGraphNode list"
  links :: "CLTGraphLink list"

record ScoreResult =
  replacementScore :: jsnum
  completenessScore :: jsnum

text \<open>
  What the worker can throw: the \<^verbatim>\<open>Error\<close> of \<^verbatim>\<open>computeInfluence\<close>, with its message,
  and the \<^verbatim>\<open>TypeError\<close> of the engine when a property of \<^verbatim>\<open>undefined\<close> is read.
\<close>

datatype jsError = Error string | TypeError

type_synonym matrix = "jsnum list list"

section \<open>Rendering and parsing numbers\<close>

definition digitChar :: "nat \<Rightarrow> char" where
  "digitChar d = char_of (48 + d)"

fun showNat :: "nat \<Rightarrow> string" where
  "showNat n = (if n < 10 then [digitChar n] else showNat (n div 10) @ [digitChar (n mod 10)])"

declare showNat.simps [simp del]

text \<open>A template literal renders an integer in decimal, with a minus sign if negative.\<close>

definition showInt :: "int \<Rightarrow> string" where
  "showInt i = (if i < 0 then CHR ''-'' # showNat (nat (- i)) else showNat (nat i))"

definition isDigit :: "char \<Rightarrow> bool" where
  "isDigit c = ((48::nat) \<le> of_char c \<and> (of_char c :: nat) \<le> 57)"

definition isWhiteSpace :: "char \<Rightarrow> bool" where
  "isWhiteSpace c = ((of_char c :: nat) \<in> {9, 10, 11, 12, 13, 32})"

definition digitsValue :: "string \<Rightarrow> int" where
  "digitsValue ds = foldl (\<lambda>acc c. acc * 10 + (int (of_char c :: nat) - 48)) 0 ds"

text \<open>
  \<^verbatim>\<open>parseInt(s, 10)\<close>: leading white space is skipped (here the white space of
  ASCII), one sign is accepted, the longest run of decimal digits that follows is the
  value; without a digit the result is \<open>NaN\<close>, here \<open>None\<close>. The value is an exact
  integer.
\<close>

definition parseInt :: "string \<Rightarrow> int option" where
  "parseInt s =
     (let t = dropWhile isWhiteSpace s;
          neg = (t \<noteq> [] \<and> hd t = CHR ''-'');
          u = (if t \<noteq> [] \<and> (hd t = CHR ''-'' \<or> hd t = CHR ''+'') then tl t else t);
          ds = takeWhile isDigit u
      in if ds = [] then None
         else Some (if neg then - digitsValue ds else digitsValue ds))"

section \<open>normalizeMatrix\<close>

definition normalizeRow :: "jsnum list \<Rightarrow> jsnum list" where
  "normalizeRow row =
     (let absRow = map jsAbs row;
          rowSum = foldl (\<lambda>acc val. acc + val) (Fin 0) absRow;
          clampedSum = jsMax rowSum (Fin epsilon)
      in map (\<lambda>val. val / clampedSum) absRow)"

definition normalizeMatrix :: "matrix \<Rightarrow> matrix" where
  "normalizeMatrix m = map normalizeRow m"

section \<open>reconstructAdjacencyMatrix\<close>

definition featureTypeOrder :: "string list" where
  "featureTypeOrder = [''cross layer transcoder'', ''mlp reconstruction error'', ''embedding'', ''logit'']"

text \<open>\<^verbatim>\<open>Array.prototype.indexOf\<close>: the first index of the element, or \<open>-1\<close>.\<close>

fun indexOf :: "'a list \<Rightarrow> 'a \<Rightarrow> int" where
  "indexOf [] x = - 1"
| "indexOf (y # ys) x = (if y = x then 0 else (let i = indexOf ys x in if i = - 1 then - 1 else i + 1))"

definition getSortKey :: "CLTGraphNode \<Rightarrow> int list" where
  "getSortKey node =
     (let typePriority0 = indexOf featureTypeOrder (feature_type node);
          typePriority = (if typePriority0 = - 1 then int (length featureTypeOrder) else typePriority0);
          layerNum = (if layer node = ''E'' then 0
                      else case parseInt (layer node) of None \<Rightarrow> 999 | Some l \<Rightarrow> l)
      in [typePriority, layerNum, ctx_idx node, (case feature node of None \<Rightarrow> 0 | Some f \<Rightarrow> f)])"

text \<open>
  The comparator of the sort: the first position where the keys differ decides, a
  missing position counts as \<open>0\<close>.
\<close>

fun compareKeys :: "int list \<Rightarrow> int list \<Rightarrow> int" where
  "compareKeys [] [] = 0"
| "compareKeys (a # as) [] = (if a \<noteq> 0 then a - 0 else compareKeys as [])"
| "compareKeys [] (b # bs) = (if 0 \<noteq> b then 0 - b else compareKeys [] bs)"
| "compareKeys (a # as) (b # bs) = (if a \<noteq> b then a - b else compareKeys as bs)"

definition compareNodes :: "CLTGraphNode \<Rightarrow> CLTGraphNode \<Rightarrow> int" where
  "compareNodes a b = compareKeys (getSortKey a) (getSortKey b)"

text \<open>
  \<^verbatim>\<open>Array.prototype.sort\<close> is stable, and the comparator is a total preorder, so the
  result is the stable sort of the list: elements are inserted from the right, each
  before the first element that does not compare smaller.
\<close>

fun insertNode :: "CLTGraphNode \<Rightarrow> CLTGraphNode list \<Rightarrow> CLTGraphNode list" where
  "insertNode x [] = [x]"
| "insertNode x (y # ys) = (if compareNodes x y \<le> 0 then x # y # ys else y # insertNode x ys)"

definition sortNodes :: "CLTGraphNode list \<Rightarrow> CLTGraphNode list" where
  "sortNodes ns = foldr insertNode ns []"

text \<open>
  \<^verbatim>\<open>nodeIdToIdx\<close> is a plain object, \<^verbatim>\<open>{}\<close>, used as a table from identifiers to
  indices. A plain object inherits the properties of \<^verbatim>\<open>Object.prototype\<close>; these are
  their names (those of the language and of its annex for browsers, where the worker
  runs).
\<close>

definition objectPrototypeNames :: "string list" where
  "objectPrototypeNames =
     [''constructor'', ''hasOwnProperty'', ''isPrototypeOf'', ''propertyIsEnumerable'',
      ''toLocaleString'', ''toString'', ''valueOf'', ''__proto__'',
      ''__defineGetter__'', ''__defineSetter__'', ''__lookupGetter__'', ''__lookupSetter__'']"

text \<open>
  What a read \<^verbatim>\<open>table[key]\<close> gives: \<^verbatim>\<open>undefined\<close>, an index stored in the table, or
  an inherited value (a function, or the prototype itself), which is neither
  \<^verbatim>\<open>undefined\<close> nor a number. The table is modelled by its own properties, a map.
\<close>

datatype propertyValue = Undefined | Index nat | Inherited

text \<open>
  The write \<^verbatim>\<open>table[key] = idx\<close> creates an own property, which then hides an inherited
  one of the same name; only for the key \<^verbatim>\<open>__proto__\<close> it calls the inherited setter,
  which ignores a number and stores nothing.
\<close>

definition setProperty :: "string \<Rightarrow> nat \<Rightarrow> (string \<rightharpoonup> nat) \<Rightarrow> (string \<rightharpoonup> nat)" where
  "setProperty key idx own = (if key = ''__proto__'' then own else own(key \<mapsto> idx))"

definition getProperty :: "(string \<rightharpoonup> nat) \<Rightarrow> string \<Rightarrow> propertyValue" where
  "getProperty own key =
     (case own key of
        Some idx \<Rightarrow> Index idx
      | None \<Rightarrow> if key \<in> set objectPrototypeNames then Inherited else Undefined)"

text \<open>
  The table is filled by a \<^verbatim>\<open>forEach\<close> over the sorted nodes: a later node with the same
  identifier overwrites the entry.
\<close>

definition nodeIdToIdx :: "CLTGraphNode list \<Rightarrow> (string \<rightharpoonup> nat)" where
  "nodeIdToIdx sortedNodes =
     fold (\<lambda>(idx, node) own. setProperty (node_id node) idx own) (enumerate 0 sortedNodes) Map.empty"

definition setEntry :: "nat \<Rightarrow> nat \<Rightarrow> jsnum \<Rightarrow> matrix \<Rightarrow> matrix" where
  "setEntry r c v m = m[r := (m ! r)[c := v]]"

text \<open>
  The body of the \<^verbatim>\<open>forEach\<close> over the edges. When both reads are not \<^verbatim>\<open>undefined\<close>,
  the code writes \<^verbatim>\<open>adjacencyMatrix[dstIdx][srcIdx] = edge.weight\<close>:
  \<^item> for two indices, the entry of the matrix;
  \<^item> for an inherited value as \<open>srcIdx\<close>, a property of the row that is named by the text
    of that value and is no entry of the row: the matrix is as before;
  \<^item> for an inherited value as \<open>dstIdx\<close>, \<^verbatim>\<open>adjacencyMatrix[dstIdx]\<close> is \<^verbatim>\<open>undefined\<close>, and
    the write to a property of it throws a \<^verbatim>\<open>TypeError\<close>.
\<close>

definition addEdge :: "(string \<rightharpoonup> nat) \<Rightarrow> CLTGraphLink \<Rightarrow> matrix \<Rightarrow> jsError + matrix" where
  "addEdge idx edge m =
     (let srcIdx = getProperty idx (source edge);
          dstIdx = getProperty idx (target edge)
      in if srcIdx \<noteq> Undefined \<and> dstIdx \<noteq> Undefined then
           (case dstIdx of
              Index d \<Rightarrow> (case srcIdx of Index s \<Rightarrow> Inr (setEntry d s (weight edge) m) | _ \<Rightarrow> Inr m)
            | _ \<Rightarrow> Inl TypeError)
         else Inr m)"

text \<open>The \<^verbatim>\<open>forEach\<close> over the edges ends at the first edge that throws.\<close>

fun addEdges :: "(string \<rightharpoonup> nat) \<Rightarrow> CLTGraphLink list \<Rightarrow> matrix \<Rightarrow> jsError + matrix" where
  "addEdges idx [] m = Inr m"
| "addEdges idx (edge # edges) m =
     (case addEdge idx edge m of Inl err \<Rightarrow> Inl err | Inr m' \<Rightarrow> addEdges idx edges m')"

definition reconstructAdjacencyMatrix ::
  "CLTGraphNode list \<Rightarrow> CLTGraphLink list \<Rightarrow> jsError + matrix \<times> CLTGraphNode list" where
  "reconstructAdjacencyMatrix ns edges =
     (let sortedNodes = sortNodes ns;
          idx = nodeIdToIdx sortedNodes;
          nNodes = length sortedNodes;
          adjacencyMatrix = replicate nNodes (replicate nNodes (Fin 0))
      in case addEdges idx edges adjacencyMatrix of
           Inl err \<Rightarrow> Inl err
         | Inr m \<Rightarrow> Inr (m, sortedNodes))"

section \<open>computeInfluence\<close>

text \<open>
  \<^verbatim>\<open>A[i][j]\<close> for a row \<open>i\<close> that exists: past the end of the row the read is
  \<^verbatim>\<open>undefined\<close>, and the product with it is \<open>NaN\<close>.
\<close>

definition entry :: "matrix \<Rightarrow> nat \<Rightarrow> nat \<Rightarrow> jsnum" where
  "entry A i j = (if j < length (A ! i) then A ! i ! j else NaN)"

text \<open>
  The nested loops that fill a fresh vector of \<^verbatim>\<open>A[0].length\<close> zeros with
  \<^verbatim>\<open>out[j] += v[i] * A[i][j]\<close>, \<open>j\<close> outside and \<open>i\<close> inside. The worker writes them
  twice: with the logit weights for the seed, with the current iterate in the loop.
\<close>

definition applyMatrix :: "matrix \<Rightarrow> jsnum list \<Rightarrow> jsnum list" where
  "applyMatrix A v =
     map (\<lambda>j. fold (\<lambda>i acc. acc + v ! i * entry A i j) [0..<length v] (Fin 0))
       [0..<length (A ! 0)]"

text \<open>
  The loops read \<^verbatim>\<open>A[i]\<close> for every \<open>i\<close> below the length of the vector; when the
  matrix has fewer rows (and the outer loop runs at all), \<^verbatim>\<open>A[i][j]\<close> reads a property
  of \<^verbatim>\<open>undefined\<close> and the engine throws a \<^verbatim>\<open>TypeError\<close>.
\<close>

definition rowsMissing :: "matrix \<Rightarrow> jsnum list \<Rightarrow> bool" where
  "rowsMissing A v = (0 < length (A ! 0) \<and> length A < length v)"

definition convergenceMessage :: "nat \<Rightarrow> string" where
  "convergenceMessage iterations =
     ''Influence computation failed to converge after '' @ showNat iterations @ '' iterations''"

function influenceLoop ::
  "matrix \<Rightarrow> nat \<Rightarrow> jsnum list \<Rightarrow> jsnum list \<Rightarrow> nat \<Rightarrow> jsError + jsnum list" where
  "influenceLoop A maxIter currentInfluence influence iterations =
     (if list_ex (\<lambda>val. val \<noteq> Fin 0) currentInfluence then
        if iterations \<ge> maxIter then Inl (Error (convergenceMessage iterations))
        else if rowsMissing A currentInfluence then Inl TypeError
        else
          (let newInfluence = applyMatrix A currentInfluence
           in influenceLoop A maxIter newInfluence
                (map (\<lambda>i. influence ! i + newInfluence ! i) [0..<length influence])
                (iterations + 1))
      else Inr influence)"
  by pat_completeness auto
termination
  by (relation "measure (\<lambda>(A, maxIter, currentInfluence, influence, iterations). maxIter - iterations)") auto

declare influenceLoop.simps [simp del]

text \<open>
  \<^verbatim>\<open>A[0].length\<close> on an empty matrix reads a property of \<^verbatim>\<open>undefined\<close>: a
  \<^verbatim>\<open>TypeError\<close>.
\<close>

definition computeInfluence :: "matrix \<Rightarrow> jsnum list \<Rightarrow> nat \<Rightarrow> jsError + jsnum list" where
  "computeInfluence A logitWeights maxIter =
     (if A = [] then Inl TypeError
      else if rowsMissing A logitWeights then Inl TypeError
      else
        (let currentInfluence = applyMatrix A logitWeights
         in influenceLoop A maxIter currentInfluence currentInfluence 0))"

section \<open>computeGraphScoresFromGraphData\<close>

text \<open>
  The helper \<^verbatim>\<open>zeroRowAndColumn\<close>, a closure over the adjacency matrix: here the matrix
  is passed and returned. It is only called with the index of a sorted node, a row of
  the matrix.
\<close>

definition zeroRowAndColumn :: "nat \<Rightarrow> matrix \<Rightarrow> matrix" where
  "zeroRowAndColumn idx m =
     (let m1 = fold (\<lambda>c. setEntry idx c (Fin 0)) [0..<length m] m
      in fold (\<lambda>r. setEntry r idx (Fin 0)) [0..<length m1] m1)"

text \<open>The key \<^verbatim>\<open>`${node.layer}|${node.ctx_idx}`\<close>.\<close>

definition mergeKey :: "CLTGraphNode \<Rightarrow> string" where
  "mergeKey node = layer node @ ''|'' @ showInt (ctx_idx node)"

text \<open>
  \<^verbatim>\<open>errorIndexByKey\<close> is a plain object too. Its keys all contain the character \<open>|\<close>,
  which no inherited property name contains, so a read gives an index stored in the
  table or \<^verbatim>\<open>undefined\<close>: the table is a map.
\<close>

definition errorIndexByKey :: "CLTGraphNode list \<Rightarrow> (string \<rightharpoonup> nat)" where
  "errorIndexByKey sortedNodes =
     fold (\<lambda>(idx, node) m.
            if feature_type node = ''mlp reconstruction error'' then m(mergeKey node \<mapsto> idx) else m)
       (enumerate 0 sortedNodes) Map.empty"

text \<open>The loop \<^verbatim>\<open>adjacencyMatrix[r][errorIdx] += adjacencyMatrix[r][featureIdx]\<close>.\<close>

definition mergeColumn :: "nat \<Rightarrow> nat \<Rightarrow> matrix \<Rightarrow> matrix" where
  "mergeColumn errorIdx featureIdx m =
     fold (\<lambda>r m'. setEntry r errorIdx (m' ! r ! errorIdx + m' ! r ! featureIdx) m') [0..<length m] m"

text \<open>The body of the second \<^verbatim>\<open>forEach\<close> of the merge pass, for one node.\<close>

definition mergeNode ::
  "string list \<Rightarrow> (string \<rightharpoonup> nat) \<Rightarrow> nat \<times> CLTGraphNode \<Rightarrow> matrix \<Rightarrow> matrix" where
  "mergeNode pinnedIds errorIndex p m =
     (let featureIdx = fst p; node = snd p
      in if feature_type node \<noteq> ''cross layer transcoder'' then m
         else if node_id node \<in> set pinnedIds then m
         else
           (case errorIndex (mergeKey node) of
              None \<Rightarrow> zeroRowAndColumn featureIdx m
            | Some errorIdx \<Rightarrow> zeroRowAndColumn featureIdx (mergeColumn errorIdx featureIdx m)))"

definition mergePass :: "string list \<Rightarrow> CLTGraphNode list \<Rightarrow> matrix \<Rightarrow> matrix" where
  "mergePass pinnedIds sortedNodes m =
     fold (mergeNode pinnedIds (errorIndexByKey sortedNodes)) (enumerate 0 sortedNodes) m"

text \<open>The merge pass runs only when \<^verbatim>\<open>pinnedIds.length > 0\<close>.\<close>

definition mergeStage :: "string list \<Rightarrow> CLTGraphNode list \<Rightarrow> matrix \<Rightarrow> matrix" where
  "mergeStage pinnedIds sortedNodes m =
     (if length pinnedIds > 0 then mergePass pinnedIds sortedNodes m else m)"

definition countType :: "string \<Rightarrow> CLTGraphNode list \<Rightarrow> nat" where
  "countType t sortedNodes = length (filter (\<lambda>n. feature_type n = t) sortedNodes)"

text \<open>The logit weights: zeros, then the probabilities of the logit nodes in the last places.\<close>

definition buildLogitWeights :: "CLTGraphNode list \<Rightarrow> nat \<Rightarrow> jsnum list" where
  "buildLogitWeights sortedNodes n =
     (let nLogits = countType ''logit'' sortedNodes;
          sortedLogitProbs = map token_prob (filter (\<lambda>n. feature_type n = ''logit'') sortedNodes)
      in fold (\<lambda>i lw. lw[n - nLogits + i := sortedLogitProbs ! i]) [0..<nLogits] (replicate n (Fin 0)))"

text \<open>\<^verbatim>\<open>xs.slice(a, b)\<close> for indices that are not negative.\<close>

definition slice :: "nat \<Rightarrow> nat \<Rightarrow> 'a list \<Rightarrow> 'a list" where
  "slice a b xs = drop a (take b xs)"

text \<open>\<^verbatim>\<open>xs.reduce((sum, val) => sum + val, 0)\<close>.\<close>

definition sumUp :: "jsnum list \<Rightarrow> jsnum" where
  "sumUp xs = foldl (\<lambda>acc val. acc + val) (Fin 0) xs"

definition coerceNaN :: "jsnum \<Rightarrow> jsnum" where
  "coerceNaN x = (if isNaN x then Fin 0 else x)"

text \<open>The scores, from the sorted nodes, the normalized matrix and the influence.\<close>

definition deriveScores ::
  "CLTGraphNode list \<Rightarrow> matrix \<Rightarrow> jsnum list \<Rightarrow> jsnum list \<Rightarrow> ScoreResult" where
  "deriveScores sortedNodes normalizedMatrix logitWeights nodeInfluence =
     (let nFeatures = countType ''cross layer transcoder'' sortedNodes;
          nErrorNodes = countType ''mlp reconstruction error'' sortedNodes;
          nTokens = countType ''embedding'' sortedNodes;
          errorStart = nFeatures;
          errorEnd = errorStart + nErrorNodes;
          tokenEnd = errorEnd + nTokens;
          tokenInfluence = sumUp (slice errorEnd tokenEnd nodeInfluence);
          errorInfluence = sumUp (slice errorStart errorEnd nodeInfluence);
          replacement = tokenInfluence / (tokenInfluence + errorInfluence);
          nonErrorFractions = map (\<lambda>row. Fin 1 - sumUp (slice errorStart errorEnd row)) normalizedMatrix;
          outputInfluence = map (\<lambda>i. nodeInfluence ! i + logitWeights ! i) [0..<length nodeInfluence];
          completeness =
            sumUp (map (\<lambda>i. nonErrorFractions ! i * outputInfluence ! i) [0..<length nonErrorFractions])
              / sumUp outputInfluence
      in \<lparr>replacementScore = coerceNaN replacement, completenessScore = coerceNaN completeness\<rparr>)"

definition computeGraphScoresFromGraphData :: "WorkerGraph \<Rightarrow> string list \<Rightarrow> jsError + ScoreResult" where
  "computeGraphScoresFromGraphData graphData pinnedIds =
     (case reconstructAdjacencyMatrix (nodes graphData) (links graphData) of
        Inl err \<Rightarrow> Inl err
      | Inr rec \<Rightarrow>
          (let sortedNodes = snd rec;
               adjacencyMatrix = mergeStage pinnedIds sortedNodes (fst rec);
               logitWeights = buildLogitWeights sortedNodes (length adjacencyMatrix);
               normalizedMatrix = normalizeMatrix adjacencyMatrix
           in case computeInfluence normalizedMatrix logitWeights 1000 of
                Inl err \<Rightarrow> Inl err
              | Inr nodeInfluence \<Rightarrow>
                  Inr (deriveScores sortedNodes normalizedMatrix logitWeights nodeInfluence)))"

section \<open>Notions used to state the properties\<close>

text \<open>A matrix with \<open>n\<close> rows of \<open>n\<close> entries each, as the worker builds and keeps it.\<close>

definition squareMatrix :: "nat \<Rightarrow> matrix \<Rightarrow> bool" where
  "squareMatrix n m = (length m = n \<and> list_all (\<lambda>row. length row = n) m)"

text \<open>Nodes and edges for the concrete graphs below.\<close>

definition mkNode :: "string \<Rightarrow> string \<Rightarrow> string \<Rightarrow> int option \<Rightarrow> jsnum \<Rightarrow> CLTGraphNode" where
  "mkNode i t l f p =
     \<lparr>node_id = i, feature_type = t, layer = l, ctx_idx = 0, feature = f, token_prob = p\<rparr>"

definition mkEdge :: "string \<Rightarrow> string \<Rightarrow> real \<Rightarrow> CLTGraphLink" where
  "mkEdge s t w = \<lparr>source = s, target = t, weight = Fin w\<rparr>"

text \<open>
  The nodes of the scenario of section 8 of the specification. A node that is not a
  logit carries no \<open>token_prob\<close>; the worker never reads it.
\<close>

definition nodeE :: CLTGraphNode where
  "nodeE = mkNode ''E'' ''embedding'' ''E'' None NaN"

definition nodeF :: CLTGraphNode where
  "nodeF = mkNode ''F'' ''cross layer transcoder'' ''3'' (Some 5) NaN"

definition nodeR :: CLTGraphNode where
  "nodeR = mkNode ''R'' ''mlp reconstruction error'' ''3'' None NaN"

definition nodeL :: CLTGraphNode where
  "nodeL = mkNode ''L'' ''logit'' ''4'' None (Fin 1)"

text \<open>A second reconstruction-error node with the layer and position of \<open>nodeR\<close>.\<close>

definition nodeR2 :: CLTGraphNode where
  "nodeR2 = mkNode ''R2'' ''mlp reconstruction error'' ''3'' None NaN"


text \<open>
  The entry of the adjacency matrix as section 4.1.2 of the specification words it: the
  sum of the weights of the edges from the node at \<open>srcIdx\<close> to the node at \<open>dstIdx\<close>.
\<close>

definition edgeWeightSum :: "(string \<rightharpoonup> nat) \<Rightarrow> CLTGraphLink list \<Rightarrow> nat \<Rightarrow> nat \<Rightarrow> jsnum" where
  "edgeWeightSum idx edges dstIdx srcIdx =
     sumUp (map weight (filter (\<lambda>e. getProperty idx (source e) = Index srcIdx
                                     \<and> getProperty idx (target e) = Index dstIdx) edges))"

text \<open>The weight of the last of these edges in the list, \<open>0\<close> if there is none.\<close>

definition lastEdgeWeight :: "(string \<rightharpoonup> nat) \<Rightarrow> CLTGraphLink list \<Rightarrow> nat \<Rightarrow> nat \<Rightarrow> jsnum" where
  "lastEdgeWeight idx edges dstIdx srcIdx =
     (case rev (filter (\<lambda>e. getProperty idx (source e) = Index srcIdx
                              \<and> getProperty idx (target e) = Index dstIdx) edges) of
        [] \<Rightarrow> Fin 0
      | e # _ \<Rightarrow> weight e)"

text \<open>The scenario of section 8 of the specification.\<close>

definition scenarioGraph :: WorkerGraph where
  "scenarioGraph =
     \<lparr>nodes = [nodeE, nodeF, nodeR, nodeL],
      links = [mkEdge ''E'' ''F'' 2, mkEdge ''F'' ''L'' 1, mkEdge ''E'' ''R'' 1, mkEdge ''R'' ''L'' 1]\<rparr>"

text \<open>The sum of the absolute values of a row of finite numbers.\<close>

definition absSum :: "jsnum list \<Rightarrow> real" where
  "absSum row = sum_list (map (\<lambda>v. \<bar>realOf v\<bar>) row)"

text \<open>
  A graph with two reconstruction-error nodes for one layer and position, and the same
  graph with these two nodes exchanged in the node list.
\<close>

definition twoErrorGraph :: WorkerGraph where
  "twoErrorGraph =
     \<lparr>nodes = [nodeF, nodeR, nodeR2, nodeE, nodeL],
      links = [mkEdge ''F'' ''L'' 1, mkEdge ''E'' ''R'' 1]\<rparr>"

definition twoErrorGraphPermuted :: WorkerGraph where
  "twoErrorGraphPermuted =
     \<lparr>nodes = [nodeF, nodeR2, nodeR, nodeE, nodeL],
      links = [mkEdge ''F'' ''L'' 1, mkEdge ''E'' ''R'' 1]\<rparr>"

text \<open>A transcoder-feature node and a reconstruction-error node of a later layer.\<close>

definition nodeF4 :: CLTGraphNode where
  "nodeF4 = mkNode ''F4'' ''cross layer transcoder'' ''4'' (Some 1) NaN"

definition nodeR4 :: CLTGraphNode where
  "nodeR4 = mkNode ''R4'' ''mlp reconstruction error'' ''4'' None NaN"

definition matrix4 :: matrix where
  "matrix4 = [[Fin 1, Fin 2, Fin 3, Fin 4], [Fin 5, Fin 6, Fin 7, Fin 8],
              [Fin 9, Fin 10, Fin 11, Fin 12], [Fin 13, Fin 14, Fin 15, Fin 16]]"

text \<open>
  The iterates of the influence computation: the seed, one step back from the logits, and
  the vectors that \<open>k\<close> further applications of the matrix give.
\<close>

definition influenceIterate :: "matrix \<Rightarrow> jsnum list \<Rightarrow> nat \<Rightarrow> jsnum list" where
  "influenceIterate A logitWeights k = (applyMatrix A ^^ k) (applyMatrix A logitWeights)"

definition hasNonZero :: "jsnum list \<Rightarrow> bool" where
  "hasNonZero v = list_ex (\<lambda>val. val \<noteq> Fin 0) v"

text \<open>The entrywise sum of the iterates \<open>0, ..., k\<close>, added up in this order.\<close>

definition addVector :: "jsnum list \<Rightarrow> jsnum list \<Rightarrow> jsnum list" where
  "addVector influence v = map (\<lambda>i. influence ! i + v ! i) [0..<length influence]"

definition accumulatedInfluence :: "matrix \<Rightarrow> jsnum list \<Rightarrow> nat \<Rightarrow> jsnum list" where
  "accumulatedInfluence A logitWeights k =
     foldl addVector (influenceIterate A logitWeights 0) (map (influenceIterate A logitWeights) [1..<Suc k])"

text \<open>
  The logit nodes of a node list all carry a finite \<open>token_prob\<close>; the sum of these
  probabilities.
\<close>

definition finiteLogitProbs :: "CLTGraphNode list \<Rightarrow> bool" where
  "finiteLogitProbs ns = list_all (\<lambda>n. isFin (token_prob n)) (filter (\<lambda>n. feature_type n = ''logit'') ns)"

definition logitProbSum :: "CLTGraphNode list \<Rightarrow> real" where
  "logitProbSum ns = sum_list (map (\<lambda>n. realOf (token_prob n)) (filter (\<lambda>n. feature_type n = ''logit'') ns))"

text \<open>
  An edge on which \<^verbatim>\<open>reconstructAdjacencyMatrix\<close> throws: its target reads as an inherited
  value (the name of an inherited property that is no node identifier), and its source
  does not read as \<^verbatim>\<open>undefined\<close>.
\<close>

definition edgeThrows :: "(string \<rightharpoonup> nat) \<Rightarrow> CLTGraphLink \<Rightarrow> bool" where
  "edgeThrows idx edge =
     (getProperty idx (source edge) \<noteq> Undefined \<and> getProperty idx (target edge) = Inherited)"

section \<open>The loops over the matrix, in closed form\<close>

lemma squareMatrixI:
  "length m = n \<Longrightarrow> (\<And>r. r < n \<Longrightarrow> length (m ! r) = n) \<Longrightarrow> squareMatrix n m"
  by (simp add: squareMatrix_def list_all_length)

lemma fold_setEntry_row:
  "fold (\<lambda>c. setEntry idx c v) cs m = m[idx := fold (\<lambda>c row. row[c := v]) cs (m ! idx)]"
  unfolding setEntry_def
proof (induction cs arbitrary: m)
  case Nil
  then show ?case by simp
next
  case (Cons c cs)
  show ?case
  proof (cases "idx < length m")
    case True
    then show ?thesis by (simp add: Cons.IH)
  next
    case False
    then show ?thesis by (simp add: Cons.IH list_update_beyond)
  qed
qed

lemma fold_update_const_length: "length (fold (\<lambda>c row. row[c := v]) cs row) = length row"
  by (induction cs arbitrary: row) simp_all

lemma fold_update_const_nth:
  "c < length row \<Longrightarrow> fold (\<lambda>c row. row[c := v]) cs row ! c = (if c \<in> set cs then v else row ! c)"
  by (induction cs arbitrary: row) (auto simp: nth_list_update fold_update_const_length)

lemma fold_update_const_all:
  "length row \<le> n \<Longrightarrow> fold (\<lambda>c row. row[c := v]) [0..<n] row = replicate (length row) v"
  by (rule nth_equalityI) (simp_all add: fold_update_const_length fold_update_const_nth)

lemma fold_rows_upto:
  "n \<le> length m \<Longrightarrow> fold (\<lambda>r m'. m'[r := g (m' ! r)]) [0..<n] m = map g (take n m) @ drop n m"
proof (induction n)
  case 0
  then show ?case by simp
next
  case (Suc n)
  then have n: "n < length m" by simp
  have "fold (\<lambda>r m'. m'[r := g (m' ! r)]) [0..<Suc n] m
        = (map g (take n m) @ drop n m)[n := g ((map g (take n m) @ drop n m) ! n)]"
    using Suc by simp
  also have "(map g (take n m) @ drop n m) ! n = m ! n"
    using n by (simp add: nth_append)
  also have "(map g (take n m) @ drop n m)[n := g (m ! n)]
             = map g (take n m) @ (drop n m)[0 := g (m ! n)]"
    using n by (simp add: list_update_append)
  also have "drop n m = m ! n # drop (Suc n) m"
    using n by (simp add: Cons_nth_drop_Suc)
  also have "map g (take n m) @ (m ! n # drop (Suc n) m)[0 := g (m ! n)]
             = map g (take (Suc n) m) @ drop (Suc n) m"
    using n by (simp add: take_Suc_conv_app_nth)
  finally show ?case .
qed

lemma fold_rows_all: "fold (\<lambda>r m'. m'[r := g (m' ! r)]) [0..<length m] m = map g m"
  using fold_rows_upto [of "length m" m g] by simp

lemma mergeColumn_eq: "mergeColumn e f m = map (\<lambda>row. row[e := row ! e + row ! f]) m"
  unfolding mergeColumn_def setEntry_def by (rule fold_rows_all)

lemma zeroRowAndColumn_eq:
  "zeroRowAndColumn idx m =
     map (\<lambda>row. row[idx := Fin 0])
       (m[idx := fold (\<lambda>c row. row[c := Fin 0]) [0..<length m] (m ! idx)])"
proof -
  have "fold (\<lambda>r. setEntry r idx (Fin 0)) [0..<length m1] m1 = map (\<lambda>row. row[idx := Fin 0]) m1" for m1
    unfolding setEntry_def by (rule fold_rows_all)
  then show ?thesis
    by (simp add: zeroRowAndColumn_def fold_setEntry_row)
qed

lemma zeroRowAndColumn_square:
  assumes "squareMatrix n m"
  shows "zeroRowAndColumn idx m = map (\<lambda>row. row[idx := Fin 0]) (m[idx := replicate n (Fin 0)])"
proof (cases "idx < n")
  case True
  have "length m = n" "length (m ! idx) = n"
    using assms True by (simp_all add: squareMatrix_def list_all_length)
  then show ?thesis
    by (simp add: zeroRowAndColumn_eq fold_update_const_all)
next
  case False
  have "length m = n"
    using assms by (simp add: squareMatrix_def)
  then show ?thesis
    using False by (simp add: zeroRowAndColumn_eq list_update_beyond)
qed

lemma zeroRowAndColumn_nth:
  assumes "squareMatrix n m" "idx < n" "r < n" "c < n"
  shows "zeroRowAndColumn idx m ! r ! c = (if r = idx \<or> c = idx then Fin 0 else m ! r ! c)"
proof -
  have "length m = n" "length (m ! r) = n"
    using assms by (simp_all add: squareMatrix_def list_all_length)
  then show ?thesis
    using assms(2-) by (auto simp: zeroRowAndColumn_square [OF assms(1)] nth_list_update)
qed

lemma squareMatrix_zeroRowAndColumn:
  assumes "squareMatrix n m"
  shows "squareMatrix n (zeroRowAndColumn idx m)"
proof (rule squareMatrixI)
  show "length (zeroRowAndColumn idx m) = n"
    using assms by (simp add: zeroRowAndColumn_square [OF assms] squareMatrix_def)
next
  fix r assume "r < n"
  then have "length m = n" "length (m ! r) = n"
    using assms by (simp_all add: squareMatrix_def list_all_length)
  then show "length (zeroRowAndColumn idx m ! r) = n"
    using \<open>r < n\<close>
    by (cases "idx < n")
       (simp_all add: zeroRowAndColumn_square [OF assms] nth_list_update list_update_beyond)
qed

lemma squareMatrix_mergeColumn:
  assumes "squareMatrix n m"
  shows "squareMatrix n (mergeColumn e f m)"
  using assms by (simp add: squareMatrix_def mergeColumn_eq list_all_length)

section \<open>The lookup tables: the last node with a key wins\<close>

lemma fold_enumerate_snoc:
  "fold f (enumerate 0 (ns @ [x])) m = f (length ns, x) (fold f (enumerate 0 ns) m)"
  by (simp add: enumerate_append_eq)

lemma lastIndex_Some_iff:
  "fold (\<lambda>(idx, node) m. if P node then m(key node \<mapsto> idx) else m) (enumerate 0 ns) Map.empty k = Some i
   \<longleftrightarrow> i < length ns \<and> P (ns ! i) \<and> key (ns ! i) = k
       \<and> (\<forall>j. i < j \<and> j < length ns \<longrightarrow> \<not> (P (ns ! j) \<and> key (ns ! j) = k))"
proof (induction ns arbitrary: i rule: rev_induct)
  case Nil
  then show ?case by simp
next
  case (snoc x ns)
  let ?f = "\<lambda>(idx, node) m. if P node then m(key node \<mapsto> idx) else m"
  show ?case
  proof (cases "P x \<and> key x = k")
    case True
    then have "fold ?f (enumerate 0 (ns @ [x])) Map.empty k = Some (length ns)"
      by (simp add: fold_enumerate_snoc)
    moreover have "(i < length (ns @ [x]) \<and> P ((ns @ [x]) ! i) \<and> key ((ns @ [x]) ! i) = k
       \<and> (\<forall>j. i < j \<and> j < length (ns @ [x]) \<longrightarrow> \<not> (P ((ns @ [x]) ! j) \<and> key ((ns @ [x]) ! j) = k)))
       \<longleftrightarrow> i = length ns"
    proof
      assume a: "i < length (ns @ [x]) \<and> P ((ns @ [x]) ! i) \<and> key ((ns @ [x]) ! i) = k
       \<and> (\<forall>j. i < j \<and> j < length (ns @ [x]) \<longrightarrow> \<not> (P ((ns @ [x]) ! j) \<and> key ((ns @ [x]) ! j) = k))"
      show "i = length ns"
      proof (rule ccontr)
        assume "i \<noteq> length ns"
        with a have "i < length ns" by simp
        moreover from a have "i < length ns \<and> length ns < length (ns @ [x])
           \<longrightarrow> \<not> (P ((ns @ [x]) ! length ns) \<and> key ((ns @ [x]) ! length ns) = k)"
          by blast
        ultimately have "\<not> (P ((ns @ [x]) ! length ns) \<and> key ((ns @ [x]) ! length ns) = k)"
          by simp
        with True show False by simp
      qed
    next
      assume "i = length ns"
      with True show "i < length (ns @ [x]) \<and> P ((ns @ [x]) ! i) \<and> key ((ns @ [x]) ! i) = k
       \<and> (\<forall>j. i < j \<and> j < length (ns @ [x]) \<longrightarrow> \<not> (P ((ns @ [x]) ! j) \<and> key ((ns @ [x]) ! j) = k))"
        by auto
    qed
    ultimately show ?thesis by auto
  next
    case False
    then have "fold ?f (enumerate 0 (ns @ [x])) Map.empty k = fold ?f (enumerate 0 ns) Map.empty k"
      by (auto simp: fold_enumerate_snoc)
    moreover have "(i < length (ns @ [x]) \<and> P ((ns @ [x]) ! i) \<and> key ((ns @ [x]) ! i) = k
       \<and> (\<forall>j. i < j \<and> j < length (ns @ [x]) \<longrightarrow> \<not> (P ((ns @ [x]) ! j) \<and> key ((ns @ [x]) ! j) = k)))
       \<longleftrightarrow> (i < length ns \<and> P (ns ! i) \<and> key (ns ! i) = k
       \<and> (\<forall>j. i < j \<and> j < length ns \<longrightarrow> \<not> (P (ns ! j) \<and> key (ns ! j) = k)))"
      using False by (auto simp: nth_append less_Suc_eq)
    ultimately show ?thesis using snoc.IH by simp
  qed
qed

lemma errorIndexByKey_Some_iff:
  "errorIndexByKey ns k = Some i
   \<longleftrightarrow> i < length ns \<and> feature_type (ns ! i) = ''mlp reconstruction error'' \<and> mergeKey (ns ! i) = k
       \<and> (\<forall>j. i < j \<and> j < length ns \<longrightarrow>
             \<not> (feature_type (ns ! j) = ''mlp reconstruction error'' \<and> mergeKey (ns ! j) = k))"
  unfolding errorIndexByKey_def
  by (rule lastIndex_Some_iff [where P = "\<lambda>node. feature_type node = ''mlp reconstruction error''" and key = mergeKey])

lemma nodeIdToIdx_Some_iff:
  "nodeIdToIdx ns k = Some i
   \<longleftrightarrow> i < length ns \<and> node_id (ns ! i) \<noteq> ''__proto__'' \<and> node_id (ns ! i) = k
       \<and> (\<forall>j. i < j \<and> j < length ns \<longrightarrow>
             \<not> (node_id (ns ! j) \<noteq> ''__proto__'' \<and> node_id (ns ! j) = k))"
proof -
  have eq: "(\<lambda>(idx, node) own. setProperty (node_id node) idx own)
        = (\<lambda>(idx, node) m. if node_id node \<noteq> ''__proto__'' then m(node_id node \<mapsto> idx) else m)"
    by (auto simp: setProperty_def fun_eq_iff)
  show ?thesis
    unfolding nodeIdToIdx_def eq
    by (rule lastIndex_Some_iff [where P = "\<lambda>node. node_id node \<noteq> ''__proto__''" and key = node_id])
qed

text \<open>
  The keys of \<^verbatim>\<open>errorIndexByKey\<close> are no inherited property names: a write stores the
  index, and a read gives a stored index or \<^verbatim>\<open>undefined\<close>.
\<close>

lemma mergeKey_not_inherited: "mergeKey node \<notin> set objectPrototypeNames"
proof -
  have "CHR ''|'' \<in> set (mergeKey node)"
    by (simp add: mergeKey_def)
  moreover have "\<forall>k\<in>set objectPrototypeNames. CHR ''|'' \<notin> set k"
    by (simp add: objectPrototypeNames_def)
  ultimately show ?thesis by blast
qed

lemma errorIndexByKey_is_map:
  "setProperty (mergeKey node) i own = own(mergeKey node \<mapsto> i)"
  "getProperty own (mergeKey node) = (case own (mergeKey node) of None \<Rightarrow> Undefined | Some i \<Rightarrow> Index i)"
proof -
  have "mergeKey node \<noteq> ''__proto__''"
    using mergeKey_not_inherited [of node] by (auto simp: objectPrototypeNames_def)
  then show "setProperty (mergeKey node) i own = own(mergeKey node \<mapsto> i)"
    by (simp add: setProperty_def)
  show "getProperty own (mergeKey node) = (case own (mergeKey node) of None \<Rightarrow> Undefined | Some i \<Rightarrow> Index i)"
    using mergeKey_not_inherited [of node] by (simp add: getProperty_def split: option.splits)
qed

lemma errorIndexByKey_None_iff:
  "errorIndexByKey ns k = None
   \<longleftrightarrow> list_all (\<lambda>e. \<not> (feature_type e = ''mlp reconstruction error'' \<and> mergeKey e = k)) ns"
  unfolding errorIndexByKey_def
  by (induction ns rule: rev_induct) (simp_all add: fold_enumerate_snoc)

section \<open>An unpinned feature node without an error node\<close>

text \<open>
  C8. When the merge pass comes to an unpinned transcoder-feature node and no
  reconstruction-error node of the graph has its \<open>(layer, ctx_idx)\<close> key, the step keeps
  the shape of the matrix, sets the row and the column of that node to zero and leaves
  every other entry as it was.
\<close>

theorem mergeNode_without_error_node:
  assumes "squareMatrix (length sortedNodes) m" and "featureIdx < length sortedNodes"
    and "feature_type (sortedNodes ! featureIdx) = ''cross layer transcoder''"
    and "node_id (sortedNodes ! featureIdx) \<notin> set pinnedIds"
    and "list_all (\<lambda>e. \<not> (feature_type e = ''mlp reconstruction error''
                           \<and> mergeKey e = mergeKey (sortedNodes ! featureIdx))) sortedNodes"
  shows "squareMatrix (length sortedNodes)
           (mergeNode pinnedIds (errorIndexByKey sortedNodes) (featureIdx, sortedNodes ! featureIdx) m)
       \<and> (\<forall>r c. r < length sortedNodes \<and> c < length sortedNodes \<longrightarrow>
            mergeNode pinnedIds (errorIndexByKey sortedNodes) (featureIdx, sortedNodes ! featureIdx) m ! r ! c
              = (if r = featureIdx \<or> c = featureIdx then Fin 0 else m ! r ! c))"
proof -
  have none: "errorIndexByKey sortedNodes (mergeKey (sortedNodes ! featureIdx)) = None"
    using assms(5) by (simp add: errorIndexByKey_None_iff)
  have step: "mergeNode pinnedIds (errorIndexByKey sortedNodes) (featureIdx, sortedNodes ! featureIdx) m
              = zeroRowAndColumn featureIdx m"
    using assms(3,4) none by (simp add: mergeNode_def)
  show ?thesis
    unfolding step
    using squareMatrix_zeroRowAndColumn [OF assms(1)] zeroRowAndColumn_nth [OF assms(1,2)]
    by simp
qed

theorem mergeNode_without_error_node_witness:
  "squareMatrix (length [nodeF, nodeR4]) [[Fin 1, Fin 2], [Fin 3, Fin 4]]
   \<and> feature_type ([nodeF, nodeR4] ! 0) = ''cross layer transcoder''
   \<and> node_id ([nodeF, nodeR4] ! 0) \<notin> set [''E'']
   \<and> mergeNode [''E''] (errorIndexByKey [nodeF, nodeR4]) (0, nodeF) [[Fin 1, Fin 2], [Fin 3, Fin 4]] ! 1 ! 1 = Fin 4
   \<and> mergeNode [''E''] (errorIndexByKey [nodeF, nodeR4]) (0, nodeF) [[Fin 1, Fin 2], [Fin 3, Fin 4]] ! 1 ! 0 = Fin 0
   \<and> mergeNode [''E''] (errorIndexByKey [nodeF, nodeR4]) (0, nodeF) [[Fin 1, Fin 2], [Fin 3, Fin 4]] ! 0 ! 1 = Fin 0"
proof -
  have sq: "squareMatrix (length [nodeF, nodeR4]) [[Fin 1, Fin 2], [Fin 3, Fin 4]]"
    by (simp add: squareMatrix_def)
  have lt: "0 < length [nodeF, nodeR4]"
    by simp
  have ft: "feature_type ([nodeF, nodeR4] ! 0) = ''cross layer transcoder''"
    by (simp add: nodeF_def mkNode_def)
  have unpinned: "node_id ([nodeF, nodeR4] ! 0) \<notin> set [''E'']"
    by (simp add: nodeF_def mkNode_def)
  have nokey: "list_all (\<lambda>e. \<not> (feature_type e = ''mlp reconstruction error''
                           \<and> mergeKey e = mergeKey ([nodeF, nodeR4] ! 0))) [nodeF, nodeR4]"
    by (simp add: nodeF_def nodeR4_def mkNode_def mergeKey_def)
  note w = mergeNode_without_error_node [OF sq lt ft unpinned nokey, THEN conjunct2]
  have "(1::nat) < length [nodeF, nodeR4] \<and> (1::nat) < length [nodeF, nodeR4]"
    "(1::nat) < length [nodeF, nodeR4] \<and> (0::nat) < length [nodeF, nodeR4]"
    "(0::nat) < length [nodeF, nodeR4] \<and> (1::nat) < length [nodeF, nodeR4]"
    by simp_all
  then show ?thesis
    using sq ft unpinned w [rule_format, of 1 1] w [rule_format, of 1 0] w [rule_format, of 0 1]
    by simp
qed

section \<open>Several error nodes with one key\<close>

lemma merged_entry:
  assumes "squareMatrix n m" and "featureIdx < n" and "r < n" and "c < n"
    and "r \<noteq> featureIdx" and "c \<noteq> featureIdx"
  shows "zeroRowAndColumn featureIdx (mergeColumn errorIdx featureIdx m) ! r ! c
         = (if c = errorIdx then m ! r ! errorIdx + m ! r ! featureIdx else m ! r ! c)"
proof -
  have len: "length m = n" "length (m ! r) = n"
    using assms by (simp_all add: squareMatrix_def list_all_length)
  have "zeroRowAndColumn featureIdx (mergeColumn errorIdx featureIdx m) ! r ! c
        = mergeColumn errorIdx featureIdx m ! r ! c"
    using zeroRowAndColumn_nth [OF squareMatrix_mergeColumn [OF assms(1)] assms(2,3,4)] assms(5,6)
    by simp
  also have "\<dots> = (if c = errorIdx then m ! r ! errorIdx + m ! r ! featureIdx else m ! r ! c)"
    using len assms(3,4) by (simp add: mergeColumn_eq nth_list_update)
  finally show ?thesis .
qed



section \<open>The adjacency matrix\<close>

lemma squareMatrix_replicate: "squareMatrix n (replicate n (replicate n v))"
  by (simp add: squareMatrix_def list_all_length)

lemma squareMatrix_setEntry: "squareMatrix n m \<Longrightarrow> squareMatrix n (setEntry r c v m)"
  by (cases "r < length m")
     (auto simp: squareMatrix_def setEntry_def list_all_length nth_list_update list_update_beyond)

lemma setEntry_nth:
  assumes "squareMatrix n m" and "r < n" and "c < n" and "r' < n" and "c' < n"
  shows "setEntry r c v m ! r' ! c' = (if r' = r \<and> c' = c then v else m ! r' ! c')"
proof -
  have "length m = n" "length (m ! r) = n"
    using assms by (simp_all add: squareMatrix_def list_all_length)
  then show ?thesis
    using assms(2-) by (auto simp: setEntry_def nth_list_update)
qed

lemma getProperty_Index_iff: "getProperty idx k = Index i \<longleftrightarrow> idx k = Some i"
  by (simp add: getProperty_def split: option.splits)

text \<open>An edge throws, or it leaves a matrix; it throws exactly when \<open>edgeThrows\<close> says so.\<close>

lemma addEdge_throws_iff: "addEdge idx edge m = Inl err \<longleftrightarrow> err = TypeError \<and> edgeThrows idx edge"
  by (cases "getProperty idx (source edge)"; cases "getProperty idx (target edge)")
     (auto simp: addEdge_def edgeThrows_def Let_def)

lemma addEdge_returns:
  "\<not> edgeThrows idx edge \<Longrightarrow>
   addEdge idx edge m
   = Inr (case (getProperty idx (source edge), getProperty idx (target edge)) of
            (Index s, Index d) \<Rightarrow> setEntry d s (weight edge) m
          | _ \<Rightarrow> m)"
  by (cases "getProperty idx (source edge)"; cases "getProperty idx (target edge)")
     (auto simp: addEdge_def edgeThrows_def Let_def)

lemma squareMatrix_addEdge:
  "addEdge idx edge m = Inr m' \<Longrightarrow> squareMatrix n m \<Longrightarrow> squareMatrix n m'"
  by (cases "getProperty idx (source edge)"; cases "getProperty idx (target edge)")
     (auto simp: addEdge_def Let_def squareMatrix_setEntry)

lemma addEdge_nth:
  assumes "addEdge idx edge m = Inr m'"
    and "squareMatrix n m" and "\<forall>k i. idx k = Some i \<longrightarrow> i < n" and "d < n" and "s < n"
  shows "m' ! d ! s
         = (if getProperty idx (source edge) = Index s \<and> getProperty idx (target edge) = Index d
            then weight edge else m ! d ! s)"
proof (cases "\<exists>s' d'. getProperty idx (source edge) = Index s' \<and> getProperty idx (target edge) = Index d'")
  case True
  then obtain s' d' where sd: "getProperty idx (source edge) = Index s'"
      "getProperty idx (target edge) = Index d'"
    by blast
  then have "s' < n" "d' < n"
    using assms(3) by (simp_all add: getProperty_Index_iff)
  moreover have "m' = setEntry d' s' (weight edge) m"
    using assms(1) sd by (simp add: addEdge_def Let_def)
  ultimately show ?thesis
    using setEntry_nth [OF assms(2), of d' s' d s] assms(4,5) sd by auto
next
  case False
  then have "m' = m"
    using assms(1)
    by (cases "getProperty idx (source edge)"; cases "getProperty idx (target edge)")
       (auto simp: addEdge_def Let_def)
  then show ?thesis
    using False by auto
qed

lemma addEdges_throws:
  "list_ex (edgeThrows idx) edges \<Longrightarrow> addEdges idx edges m = Inl TypeError"
proof (induction edges arbitrary: m)
  case Nil
  then show ?case by simp
next
  case (Cons e edges)
  show ?case
  proof (cases "addEdge idx e m")
    case (Inl err)
    then have "err = TypeError"
      by (simp add: addEdge_throws_iff)
    then show ?thesis
      using Inl by simp
  next
    case (Inr m')
    then have "\<not> edgeThrows idx e"
      using addEdge_throws_iff [of idx e m TypeError] by auto
    then show ?thesis
      using Cons Inr by simp
  qed
qed

lemma case_last:
  "(case xs @ [e] of [] \<Rightarrow> a | x # _ \<Rightarrow> f x) = (case xs of [] \<Rightarrow> f e | x # _ \<Rightarrow> f x)"
  by (cases xs) simp_all

lemma addEdges_returns:
  assumes "squareMatrix n m" and "\<forall>k i. idx k = Some i \<longrightarrow> i < n"
    and "list_all (\<lambda>e. \<not> edgeThrows idx e) edges"
  shows "\<exists>m'. addEdges idx edges m = Inr m' \<and> squareMatrix n m'
           \<and> (\<forall>d s. d < n \<and> s < n \<longrightarrow>
                 m' ! d ! s
                 = (case rev (filter (\<lambda>e. getProperty idx (source e) = Index s
                                         \<and> getProperty idx (target e) = Index d) edges) of
                      [] \<Rightarrow> m ! d ! s
                    | e # _ \<Rightarrow> weight e))"
  using assms(1,3)
proof (induction edges arbitrary: m)
  case Nil
  then show ?case by simp
next
  case (Cons e edges)
  have "\<not> edgeThrows idx e"
    using Cons.prems(2) by simp
  then obtain m1 where m1: "addEdge idx e m = Inr m1"
    using addEdge_returns by blast
  have sq1: "squareMatrix n m1"
    using m1 Cons.prems(1) by (rule squareMatrix_addEdge)
  obtain m' where m': "addEdges idx edges m1 = Inr m'" "squareMatrix n m'"
    and entries: "\<forall>d s. d < n \<and> s < n \<longrightarrow>
                 m' ! d ! s
                 = (case rev (filter (\<lambda>e. getProperty idx (source e) = Index s
                                         \<and> getProperty idx (target e) = Index d) edges) of
                      [] \<Rightarrow> m1 ! d ! s
                    | e # _ \<Rightarrow> weight e)"
    using Cons.IH [OF sq1] Cons.prems(2) by auto
  have "m' ! d ! s
        = (case rev (filter (\<lambda>e. getProperty idx (source e) = Index s
                                \<and> getProperty idx (target e) = Index d) (e # edges)) of
             [] \<Rightarrow> m ! d ! s
           | e # _ \<Rightarrow> weight e)"
    if "d < n" "s < n" for d s
    using entries that addEdge_nth [OF m1 Cons.prems(1) assms(2) that]
    by (simp add: case_last split: list.splits)
  then show ?case
    using m1 m' by simp
qed

lemma length_insertNode: "length (insertNode x ns) = Suc (length ns)"
  by (induction ns) simp_all

lemma length_sortNodes: "length (sortNodes ns) = length ns"
  unfolding sortNodes_def by (induction ns) (simp_all add: length_insertNode)

text \<open>
  C1, as the code has it. Let no edge of the graph be one on which the code throws (one
  whose target is the name of an inherited object property, such as \<open>constructor\<close>, and no
  node identifier, while its source is not unknown). Then \<^verbatim>\<open>reconstructAdjacencyMatrix\<close>
  returns the sorted nodes and a square matrix whose entry \<open>A[dstIdx][srcIdx]\<close> is the
  weight of the last edge of the edge list whose source resolves to \<open>srcIdx\<close> and whose
  target resolves to \<open>dstIdx\<close>, and \<open>0\<close> when there is no such edge: an edge overwrites
  the entry, the weights are not added up.
\<close>

theorem reconstructAdjacencyMatrix_entry:
  assumes "list_all (\<lambda>e. \<not> edgeThrows (nodeIdToIdx (sortNodes ns)) e) edges"
  shows "\<exists>m. reconstructAdjacencyMatrix ns edges = Inr (m, sortNodes ns)
           \<and> squareMatrix (length ns) m
           \<and> (\<forall>dstIdx srcIdx. dstIdx < length ns \<and> srcIdx < length ns \<longrightarrow>
                 m ! dstIdx ! srcIdx = lastEdgeWeight (nodeIdToIdx (sortNodes ns)) edges dstIdx srcIdx)"
proof -
  define n where "n = length (sortNodes ns)"
  define idx where "idx = nodeIdToIdx (sortNodes ns)"
  have n: "n = length ns"
    by (simp add: n_def length_sortNodes)
  have range: "\<forall>k i. idx k = Some i \<longrightarrow> i < n"
    by (simp add: idx_def n_def nodeIdToIdx_Some_iff)
  have sq: "squareMatrix n (replicate n (replicate n (Fin 0)))"
    by (rule squareMatrix_replicate)
  have safe: "list_all (\<lambda>e. \<not> edgeThrows idx e) edges"
    using assms by (simp add: idx_def)
  obtain m where m: "addEdges idx edges (replicate n (replicate n (Fin 0))) = Inr m"
      "squareMatrix n m"
    and entries: "\<forall>d s. d < n \<and> s < n \<longrightarrow>
                 m ! d ! s
                 = (case rev (filter (\<lambda>e. getProperty idx (source e) = Index s
                                         \<and> getProperty idx (target e) = Index d) edges) of
                      [] \<Rightarrow> replicate n (replicate n (Fin 0)) ! d ! s
                    | e # _ \<Rightarrow> weight e)"
    using addEdges_returns [OF sq range safe] by blast
  have "m ! d ! s = lastEdgeWeight idx edges d s" if "d < n" "s < n" for d s
    using entries that by (simp add: lastEdgeWeight_def split: list.splits)
  then show ?thesis
    using m n by (simp add: reconstructAdjacencyMatrix_def Let_def n_def idx_def)
qed

text \<open>On a graph with such an edge the call ends in a \<^verbatim>\<open>TypeError\<close>.\<close>

lemma reconstructAdjacencyMatrix_throws:
  "list_ex (edgeThrows (nodeIdToIdx (sortNodes ns))) edges \<Longrightarrow>
   reconstructAdjacencyMatrix ns edges = Inl TypeError"
  by (simp add: reconstructAdjacencyMatrix_def Let_def addEdges_throws)

lemma inherited_target_throws:
  "reconstructAdjacencyMatrix [nodeE, nodeL] [mkEdge ''E'' ''constructor'' 1] = Inl TypeError"
  by code_simp

lemma twoEdges_safe:
  "list_all (\<lambda>e. \<not> edgeThrows (nodeIdToIdx (sortNodes [nodeE, nodeL])) e)
     [mkEdge ''E'' ''L'' 1, mkEdge ''E'' ''L'' 2]"
  "lastEdgeWeight (nodeIdToIdx (sortNodes [nodeE, nodeL])) [mkEdge ''E'' ''L'' 1, mkEdge ''E'' ''L'' 2] 1 0
   = Fin 2"
  by code_simp+

theorem reconstructAdjacencyMatrix_entry_witness:
  "list_all (\<lambda>e. \<not> edgeThrows (nodeIdToIdx (sortNodes [nodeE, nodeL])) e)
     [mkEdge ''E'' ''L'' 1, mkEdge ''E'' ''L'' 2]
   \<and> reconstructAdjacencyMatrix [nodeE, nodeL] [mkEdge ''E'' ''L'' 1, mkEdge ''E'' ''L'' 2]
       \<noteq> Inl TypeError
   \<and> fst (projr (reconstructAdjacencyMatrix [nodeE, nodeL] [mkEdge ''E'' ''L'' 1, mkEdge ''E'' ''L'' 2]))
       ! 1 ! 0 = Fin 2"
proof -
  obtain m where
    "reconstructAdjacencyMatrix [nodeE, nodeL] [mkEdge ''E'' ''L'' 1, mkEdge ''E'' ''L'' 2]
     = Inr (m, sortNodes [nodeE, nodeL])"
    "\<forall>dstIdx srcIdx. dstIdx < length [nodeE, nodeL] \<and> srcIdx < length [nodeE, nodeL] \<longrightarrow>
       m ! dstIdx ! srcIdx
       = lastEdgeWeight (nodeIdToIdx (sortNodes [nodeE, nodeL]))
           [mkEdge ''E'' ''L'' 1, mkEdge ''E'' ''L'' 2] dstIdx srcIdx"
    using reconstructAdjacencyMatrix_entry [OF twoEdges_safe(1)] by blast
  then show ?thesis
    using twoEdges_safe by simp
qed

text \<open>
  C1, as the specification words it, fails: with two edges from \<open>E\<close> to \<open>L\<close>, of weights
  \<open>1\<close> and \<open>2\<close>, the entry is \<open>2\<close>, not the sum \<open>3\<close>.
\<close>

theorem reconstructAdjacencyMatrix_sum_counterexample:
  "reconstructAdjacencyMatrix [nodeE, nodeL] [mkEdge ''E'' ''L'' 1, mkEdge ''E'' ''L'' 2]
     = Inr ([[Fin 0, Fin 0], [Fin 2, Fin 0]], [nodeE, nodeL])
   \<and> edgeWeightSum (nodeIdToIdx (sortNodes [nodeE, nodeL])) [mkEdge ''E'' ''L'' 1, mkEdge ''E'' ''L'' 2] 1 0
       = Fin 3
   \<and> [[Fin 0, Fin 0], [Fin 2, Fin 0]] ! 1 ! 0
       \<noteq> edgeWeightSum (nodeIdToIdx (sortNodes [nodeE, nodeL])) [mkEdge ''E'' ''L'' 1, mkEdge ''E'' ''L'' 2] 1 0"
  by code_simp

section \<open>Sums of finite numbers\<close>

lemma foldl_add_Fin:
  "list_all isFin xs \<Longrightarrow> foldl (\<lambda>acc val. acc + val) (Fin a) xs = Fin (a + sum_list (map realOf xs))"
proof (induction xs arbitrary: a)
  case Nil
  then show ?case by simp
next
  case (Cons x xs)
  then obtain r where x: "x = Fin r"
    by (cases x) simp_all
  show ?case
    using Cons by (simp add: x plus_jsnum_def add.assoc)
qed

lemma sumUp_Fin: "list_all isFin xs \<Longrightarrow> sumUp xs = Fin (sum_list (map realOf xs))"
  by (simp add: sumUp_def foldl_add_Fin)

lemma sum_list_divide_const:
  "sum_list (map (\<lambda>x. f x / c) xs) = sum_list (map f xs) / (c::real)"
  by (induction xs) (simp_all add: add_divide_distrib)

lemma epsilon_pos: "0 < epsilon"
  by (simp add: epsilon_def)

section \<open>Row normalization\<close>

lemma isFin_jsAbs: "isFin v \<Longrightarrow> isFin (jsAbs v)"
  by (cases v) simp_all

lemma realOf_jsAbs: "isFin v \<Longrightarrow> realOf (jsAbs v) = \<bar>realOf v\<bar>"
  by (cases v) simp_all

lemma jsAbs_div_Fin: "isFin v \<Longrightarrow> c \<noteq> 0 \<Longrightarrow> jsAbs v / Fin c = Fin (\<bar>realOf v\<bar> / c)"
  by (cases v) (simp_all add: divide_jsnum_def)

lemma map_jsAbs_div_Fin:
  "c \<noteq> 0 \<Longrightarrow> list_all isFin row \<Longrightarrow>
   map (\<lambda>val. val / Fin c) (map jsAbs row) = map (\<lambda>v. Fin (\<bar>realOf v\<bar> / c)) row"
  by (induction row) (simp_all add: jsAbs_div_Fin)

lemma normalizeRow_Fin:
  assumes "list_all isFin row"
  shows "normalizeRow row = map (\<lambda>v. Fin (\<bar>realOf v\<bar> / max (absSum row) epsilon)) row"
proof -
  have fin: "list_all isFin (map jsAbs row)"
    using assms by (induction row) (simp_all add: isFin_jsAbs)
  have s: "foldl (\<lambda>acc val. acc + val) (Fin 0) (map jsAbs row) = Fin (absSum row)"
  proof -
    have "sum_list (map realOf (map jsAbs row)) = sum_list (map (\<lambda>v. \<bar>realOf v\<bar>) row)"
      using assms by (induction row) (simp_all add: realOf_jsAbs)
    then show ?thesis
      unfolding foldl_add_Fin [OF fin, of 0] absSum_def by simp
  qed
  have "map (\<lambda>val. val / Fin (max (absSum row) epsilon)) (map jsAbs row)
        = map (\<lambda>v. Fin (\<bar>realOf v\<bar> / max (absSum row) epsilon)) row"
  proof -
    have "max (absSum row) epsilon \<noteq> 0"
      using epsilon_pos by (simp add: max_def)
    then show ?thesis
      using assms by (rule map_jsAbs_div_Fin)
  qed
  then show ?thesis
    by (simp add: normalizeRow_def Let_def s)
qed

text \<open>
  C6, as the code has it. \<^verbatim>\<open>normalizeMatrix\<close> keeps the number of rows, and maps a row of
  finite numbers to its absolute values divided by the larger of their sum and \<open>1e-10\<close>.
  The entries of the normalized row sum to that quotient of the sum: to \<open>1\<close> when the
  absolute values sum to at least \<open>1e-10\<close>; and a row of zeros stays a row of zeros.
\<close>

theorem normalizeMatrix_row:
  assumes "i < length m" and "list_all isFin (m ! i)"
  shows "length (normalizeMatrix m) = length m
    \<and> normalizeMatrix m ! i = map (\<lambda>v. Fin (\<bar>realOf v\<bar> / max (absSum (m ! i)) epsilon)) (m ! i)
    \<and> sumUp (normalizeMatrix m ! i) = Fin (absSum (m ! i) / max (absSum (m ! i)) epsilon)
    \<and> (epsilon \<le> absSum (m ! i) \<longrightarrow> sumUp (normalizeMatrix m ! i) = Fin 1)
    \<and> (list_all (\<lambda>v. v = Fin 0) (m ! i) \<longrightarrow> normalizeMatrix m ! i = m ! i)"
proof -
  let ?c = "max (absSum (m ! i)) epsilon"
  let ?row = "map (\<lambda>v. Fin (\<bar>realOf v\<bar> / ?c)) (m ! i)"
  have row: "normalizeMatrix m ! i = ?row"
    using assms by (simp add: normalizeMatrix_def normalizeRow_Fin)
  have "list_all isFin ?row"
    by (simp add: list_all_length)
  then have "sumUp ?row = Fin (sum_list (map realOf ?row))"
    by (rule sumUp_Fin)
  also have "map realOf ?row = map (\<lambda>v. \<bar>realOf v\<bar> / ?c) (m ! i)"
    by simp
  also have "sum_list \<dots> = absSum (m ! i) / ?c"
    by (simp add: sum_list_divide_const absSum_def)
  finally have total: "sumUp (normalizeMatrix m ! i) = Fin (absSum (m ! i) / ?c)"
    by (simp add: row)
  have one: "sumUp (normalizeMatrix m ! i) = Fin 1" if "epsilon \<le> absSum (m ! i)"
    using that epsilon_pos by (simp add: total max_def)
  have zero: "normalizeMatrix m ! i = m ! i" if "list_all (\<lambda>v. v = Fin 0) (m ! i)"
    unfolding row using that by (intro nth_equalityI) (simp_all add: list_all_length)
  show ?thesis
    using row total one zero by (simp add: normalizeMatrix_def)
qed

theorem normalizeMatrix_row_witness:
  "sumUp (normalizeMatrix [[Fin 3, Fin (- 1)], [Fin 0, Fin 0]] ! 0) = Fin 1
   \<and> normalizeMatrix [[Fin 3, Fin (- 1)], [Fin 0, Fin 0]] ! 1 = [Fin 0, Fin 0]"
  using normalizeMatrix_row [of 0 "[[Fin 3, Fin (- 1)], [Fin 0, Fin 0]]"]
    normalizeMatrix_row [of 1 "[[Fin 3, Fin (- 1)], [Fin 0, Fin 0]]"]
  by (simp add: absSum_def epsilon_def sumUp_def plus_jsnum_def)

text \<open>
  C6, as the specification words it, fails for a row whose absolute values sum to less
  than \<open>1e-10\<close>: the row with the single entry \<open>1e-11\<close> has a non-zero entry and is
  normalized to the row with the single entry \<open>0.1\<close>, which does not sum to \<open>1\<close>.
\<close>

theorem normalizeMatrix_small_row_counterexample:
  "Fin (1 / 10 ^ 11) \<noteq> Fin 0
   \<and> normalizeMatrix [[Fin (1 / 10 ^ 11)]] = [[Fin (1 / 10)]]
   \<and> sumUp (normalizeMatrix [[Fin (1 / 10 ^ 11)]] ! 0) = Fin (1 / 10)
   \<and> sumUp (normalizeMatrix [[Fin (1 / 10 ^ 11)]] ! 0) \<noteq> Fin 1"
  by code_simp

section \<open>Running the worker on a concrete graph, stage by stage\<close>

lemma compute_staged:
  assumes "reconstructAdjacencyMatrix (nodes g) (links g) = Inr (m0, sns)"
    and "mergeStage pinnedIds sns m0 = m1"
    and "buildLogitWeights sns (length m1) = lw"
    and "normalizeMatrix m1 = mn"
    and "computeInfluence mn lw 1000 = Inr infl"
    and "deriveScores sns mn lw infl = res"
  shows "computeGraphScoresFromGraphData g pinnedIds = Inr res"
  using assms by (simp add: computeGraphScoresFromGraphData_def Let_def)

lemma scenario_matrix:
  "reconstructAdjacencyMatrix (nodes scenarioGraph) (links scenarioGraph)
   = Inr ([[Fin 0, Fin 0, Fin 2, Fin 0], [Fin 0, Fin 0, Fin 1, Fin 0],
       [Fin 0, Fin 0, Fin 0, Fin 0], [Fin 1, Fin 1, Fin 0, Fin 0]],
      [nodeF, nodeR, nodeE, nodeL])"
  by code_simp

lemma scenario_unmerged:
  "mergeStage [] [nodeF, nodeR, nodeE, nodeL] m = m"
  "mergeStage [''F''] [nodeF, nodeR, nodeE, nodeL] m = m"
  by (simp_all add: mergeStage_def mergePass_def mergeNode_def nodeF_def nodeR_def nodeE_def nodeL_def mkNode_def)

lemma scenario_merged:
  "mergeStage [''E''] [nodeF, nodeR, nodeE, nodeL]
     [[Fin 0, Fin 0, Fin 2, Fin 0], [Fin 0, Fin 0, Fin 1, Fin 0],
      [Fin 0, Fin 0, Fin 0, Fin 0], [Fin 1, Fin 1, Fin 0, Fin 0]]
   = [[Fin 0, Fin 0, Fin 0, Fin 0], [Fin 0, Fin 0, Fin 1, Fin 0],
      [Fin 0, Fin 0, Fin 0, Fin 0], [Fin 0, Fin 2, Fin 0, Fin 0]]"
  by code_simp

lemma scenario_unmerged_scores:
  "normalizeMatrix [[Fin 0, Fin 0, Fin 2, Fin 0], [Fin 0, Fin 0, Fin 1, Fin 0],
      [Fin 0, Fin 0, Fin 0, Fin 0], [Fin 1, Fin 1, Fin 0, Fin 0]]
   = [[Fin 0, Fin 0, Fin 1, Fin 0], [Fin 0, Fin 0, Fin 1, Fin 0],
      [Fin 0, Fin 0, Fin 0, Fin 0], [Fin (1 / 2), Fin (1 / 2), Fin 0, Fin 0]]"
  "computeInfluence [[Fin 0, Fin 0, Fin 1, Fin 0], [Fin 0, Fin 0, Fin 1, Fin 0],
      [Fin 0, Fin 0, Fin 0, Fin 0], [Fin (1 / 2), Fin (1 / 2), Fin 0, Fin 0]]
     [Fin 0, Fin 0, Fin 0, Fin 1] 1000
   = Inr [Fin (1 / 2), Fin (1 / 2), Fin 1, Fin 0]"
  "deriveScores [nodeF, nodeR, nodeE, nodeL]
     [[Fin 0, Fin 0, Fin 1, Fin 0], [Fin 0, Fin 0, Fin 1, Fin 0],
      [Fin 0, Fin 0, Fin 0, Fin 0], [Fin (1 / 2), Fin (1 / 2), Fin 0, Fin 0]]
     [Fin 0, Fin 0, Fin 0, Fin 1] [Fin (1 / 2), Fin (1 / 2), Fin 1, Fin 0]
   = \<lparr>replacementScore = Fin (2 / 3), completenessScore = Fin (5 / 6)\<rparr>"
  by code_simp+

lemma scenario_merged_scores:
  "normalizeMatrix [[Fin 0, Fin 0, Fin 0, Fin 0], [Fin 0, Fin 0, Fin 1, Fin 0],
      [Fin 0, Fin 0, Fin 0, Fin 0], [Fin 0, Fin 2, Fin 0, Fin 0]]
   = [[Fin 0, Fin 0, Fin 0, Fin 0], [Fin 0, Fin 0, Fin 1, Fin 0],
      [Fin 0, Fin 0, Fin 0, Fin 0], [Fin 0, Fin 1, Fin 0, Fin 0]]"
  "computeInfluence [[Fin 0, Fin 0, Fin 0, Fin 0], [Fin 0, Fin 0, Fin 1, Fin 0],
      [Fin 0, Fin 0, Fin 0, Fin 0], [Fin 0, Fin 1, Fin 0, Fin 0]]
     [Fin 0, Fin 0, Fin 0, Fin 1] 1000
   = Inr [Fin 0, Fin 1, Fin 1, Fin 0]"
  "deriveScores [nodeF, nodeR, nodeE, nodeL]
     [[Fin 0, Fin 0, Fin 0, Fin 0], [Fin 0, Fin 0, Fin 1, Fin 0],
      [Fin 0, Fin 0, Fin 0, Fin 0], [Fin 0, Fin 1, Fin 0, Fin 0]]
     [Fin 0, Fin 0, Fin 0, Fin 1] [Fin 0, Fin 1, Fin 1, Fin 0]
   = \<lparr>replacementScore = Fin (1 / 2), completenessScore = Fin (2 / 3)\<rparr>"
  by code_simp+

lemma scenario_unpinned:
  "computeGraphScoresFromGraphData scenarioGraph []
   = Inr \<lparr>replacementScore = Fin (2 / 3), completenessScore = Fin (5 / 6)\<rparr>"
  by (rule compute_staged [OF scenario_matrix scenario_unmerged(1) _ scenario_unmerged_scores])
     code_simp

lemma scenario_pinned:
  "computeGraphScoresFromGraphData scenarioGraph [''F'']
   = Inr \<lparr>replacementScore = Fin (2 / 3), completenessScore = Fin (5 / 6)\<rparr>"
  by (rule compute_staged [OF scenario_matrix scenario_unmerged(2) _ scenario_unmerged_scores])
     code_simp

lemma scenario_other_pinned:
  "computeGraphScoresFromGraphData scenarioGraph [''E'']
   = Inr \<lparr>replacementScore = Fin (1 / 2), completenessScore = Fin (2 / 3)\<rparr>"
  by (rule compute_staged [OF scenario_matrix scenario_merged _ scenario_merged_scores])
     code_simp

lemma scenario_merge_any:
  "pinnedIds \<noteq> [] \<Longrightarrow> ''F'' \<notin> set pinnedIds \<Longrightarrow>
   mergeStage pinnedIds [nodeF, nodeR, nodeE, nodeL] m = mergeStage [''E''] [nodeF, nodeR, nodeE, nodeL] m"
  by (simp add: mergeStage_def mergePass_def mergeNode_def nodeF_def nodeR_def nodeE_def nodeL_def
      mkNode_def)

lemma scenario_feature_unpinned:
  assumes "pinnedIds \<noteq> []" and "''F'' \<notin> set pinnedIds"
  shows "computeGraphScoresFromGraphData scenarioGraph pinnedIds
         = Inr \<lparr>replacementScore = Fin (1 / 2), completenessScore = Fin (2 / 3)\<rparr>"
proof -
  have "mergeStage pinnedIds [nodeF, nodeR, nodeE, nodeL]
          [[Fin 0, Fin 0, Fin 2, Fin 0], [Fin 0, Fin 0, Fin 1, Fin 0],
           [Fin 0, Fin 0, Fin 0, Fin 0], [Fin 1, Fin 1, Fin 0, Fin 0]]
        = [[Fin 0, Fin 0, Fin 0, Fin 0], [Fin 0, Fin 0, Fin 1, Fin 0],
           [Fin 0, Fin 0, Fin 0, Fin 0], [Fin 0, Fin 2, Fin 0, Fin 0]]"
    using assms by (simp add: scenario_merge_any scenario_merged)
  then show ?thesis
    by (rule compute_staged [OF scenario_matrix _ _ scenario_merged_scores]) code_simp
qed

text \<open>
  C2, as the specification words it, fails. With \<open>pinnedIds = []\<close> the merge pass does not
  run, so \<open>F\<close> is not merged into \<open>R\<close>: the matrix is left as built, and the scores are
  those of the call with \<open>F\<close> pinned; the replacement score is \<open>2/3\<close> in both calls, not
  strictly less in the first.
\<close>

theorem scenario_unpinned_counterexample:
  "reconstructAdjacencyMatrix (nodes scenarioGraph) (links scenarioGraph)
     = Inr ([[Fin 0, Fin 0, Fin 2, Fin 0], [Fin 0, Fin 0, Fin 1, Fin 0],
             [Fin 0, Fin 0, Fin 0, Fin 0], [Fin 1, Fin 1, Fin 0, Fin 0]],
            [nodeF, nodeR, nodeE, nodeL])
   \<and> mergeStage [] [nodeF, nodeR, nodeE, nodeL]
         [[Fin 0, Fin 0, Fin 2, Fin 0], [Fin 0, Fin 0, Fin 1, Fin 0],
          [Fin 0, Fin 0, Fin 0, Fin 0], [Fin 1, Fin 1, Fin 0, Fin 0]]
       = [[Fin 0, Fin 0, Fin 2, Fin 0], [Fin 0, Fin 0, Fin 1, Fin 0],
          [Fin 0, Fin 0, Fin 0, Fin 0], [Fin 1, Fin 1, Fin 0, Fin 0]]
   \<and> computeGraphScoresFromGraphData scenarioGraph []
       = Inr \<lparr>replacementScore = Fin (2 / 3), completenessScore = Fin (5 / 6)\<rparr>
   \<and> computeGraphScoresFromGraphData scenarioGraph [''F'']
       = Inr \<lparr>replacementScore = Fin (2 / 3), completenessScore = Fin (5 / 6)\<rparr>
   \<and> \<not> jsLess (Fin (2 / 3)) (Fin (2 / 3))"
  by (simp add: scenario_unpinned scenario_pinned scenario_matrix scenario_unmerged)

text \<open>
  C2, as the code has it. On the scenario of section 8 the call with \<open>pinnedIds = []\<close>
  returns what the call with \<open>F\<close> pinned returns, with replacement score \<open>2/3\<close>. \<open>F\<close> is
  merged into \<open>R\<close> when \<open>pinnedIds\<close> is not empty and does not name \<open>F\<close>, as for
  \<open>pinnedIds = [E]\<close>: the row and column of \<open>F\<close> are then zero, the edge from \<open>F\<close> to \<open>L\<close>
  is added to the edge from \<open>R\<close> to \<open>L\<close>, and the replacement score is \<open>1/2\<close>, strictly
  less than with \<open>F\<close> pinned.
\<close>

theorem scenario_scores:
  "computeGraphScoresFromGraphData scenarioGraph []
     = computeGraphScoresFromGraphData scenarioGraph [''F'']
   \<and> computeGraphScoresFromGraphData scenarioGraph [''F'']
       = Inr \<lparr>replacementScore = Fin (2 / 3), completenessScore = Fin (5 / 6)\<rparr>
   \<and> reconstructAdjacencyMatrix (nodes scenarioGraph) (links scenarioGraph)
       = Inr ([[Fin 0, Fin 0, Fin 2, Fin 0], [Fin 0, Fin 0, Fin 1, Fin 0],
               [Fin 0, Fin 0, Fin 0, Fin 0], [Fin 1, Fin 1, Fin 0, Fin 0]],
              [nodeF, nodeR, nodeE, nodeL])
   \<and> mergeStage [''E''] [nodeF, nodeR, nodeE, nodeL]
         [[Fin 0, Fin 0, Fin 2, Fin 0], [Fin 0, Fin 0, Fin 1, Fin 0],
          [Fin 0, Fin 0, Fin 0, Fin 0], [Fin 1, Fin 1, Fin 0, Fin 0]]
       = [[Fin 0, Fin 0, Fin 0, Fin 0], [Fin 0, Fin 0, Fin 1, Fin 0],
          [Fin 0, Fin 0, Fin 0, Fin 0], [Fin 0, Fin 2, Fin 0, Fin 0]]
   \<and> computeGraphScoresFromGraphData scenarioGraph [''E'']
       = Inr \<lparr>replacementScore = Fin (1 / 2), completenessScore = Fin (2 / 3)\<rparr>
   \<and> (\<forall>pinnedIds. pinnedIds \<noteq> [] \<and> ''F'' \<notin> set pinnedIds \<longrightarrow>
          computeGraphScoresFromGraphData scenarioGraph pinnedIds
          = Inr \<lparr>replacementScore = Fin (1 / 2), completenessScore = Fin (2 / 3)\<rparr>)
   \<and> jsLess (Fin (1 / 2)) (Fin (2 / 3))"
  by (simp add: scenario_unpinned scenario_pinned scenario_other_pinned scenario_matrix
      scenario_merged scenario_feature_unpinned)

theorem scenario_scores_witness:
  "[''R'', ''L''] \<noteq> ([] :: string list) \<and> ''F'' \<notin> set [''R'', ''L'']
   \<and> computeGraphScoresFromGraphData scenarioGraph [''R'', ''L'']
       = Inr \<lparr>replacementScore = Fin (1 / 2), completenessScore = Fin (2 / 3)\<rparr>"
  using scenario_scores by simp

section \<open>The order of the input nodes\<close>

lemma twoError_matrix:
  "reconstructAdjacencyMatrix (nodes twoErrorGraph) (links twoErrorGraph)
   = Inr ([[Fin 0, Fin 0, Fin 0, Fin 0, Fin 0], [Fin 0, Fin 0, Fin 0, Fin 1, Fin 0],
       [Fin 0, Fin 0, Fin 0, Fin 0, Fin 0], [Fin 0, Fin 0, Fin 0, Fin 0, Fin 0],
       [Fin 1, Fin 0, Fin 0, Fin 0, Fin 0]],
      [nodeF, nodeR, nodeR2, nodeE, nodeL])"
  by code_simp

lemma twoError_merged:
  "mergeStage [''E''] [nodeF, nodeR, nodeR2, nodeE, nodeL]
     [[Fin 0, Fin 0, Fin 0, Fin 0, Fin 0], [Fin 0, Fin 0, Fin 0, Fin 1, Fin 0],
      [Fin 0, Fin 0, Fin 0, Fin 0, Fin 0], [Fin 0, Fin 0, Fin 0, Fin 0, Fin 0],
      [Fin 1, Fin 0, Fin 0, Fin 0, Fin 0]]
   = [[Fin 0, Fin 0, Fin 0, Fin 0, Fin 0], [Fin 0, Fin 0, Fin 0, Fin 1, Fin 0],
      [Fin 0, Fin 0, Fin 0, Fin 0, Fin 0], [Fin 0, Fin 0, Fin 0, Fin 0, Fin 0],
      [Fin 0, Fin 0, Fin 1, Fin 0, Fin 0]]"
  by code_simp

lemma twoError_scores:
  "normalizeMatrix
     [[Fin 0, Fin 0, Fin 0, Fin 0, Fin 0], [Fin 0, Fin 0, Fin 0, Fin 1, Fin 0],
      [Fin 0, Fin 0, Fin 0, Fin 0, Fin 0], [Fin 0, Fin 0, Fin 0, Fin 0, Fin 0],
      [Fin 0, Fin 0, Fin 1, Fin 0, Fin 0]]
   = [[Fin 0, Fin 0, Fin 0, Fin 0, Fin 0], [Fin 0, Fin 0, Fin 0, Fin 1, Fin 0],
      [Fin 0, Fin 0, Fin 0, Fin 0, Fin 0], [Fin 0, Fin 0, Fin 0, Fin 0, Fin 0],
      [Fin 0, Fin 0, Fin 1, Fin 0, Fin 0]]"
  "computeInfluence
     [[Fin 0, Fin 0, Fin 0, Fin 0, Fin 0], [Fin 0, Fin 0, Fin 0, Fin 1, Fin 0],
      [Fin 0, Fin 0, Fin 0, Fin 0, Fin 0], [Fin 0, Fin 0, Fin 0, Fin 0, Fin 0],
      [Fin 0, Fin 0, Fin 1, Fin 0, Fin 0]]
     [Fin 0, Fin 0, Fin 0, Fin 0, Fin 1] 1000
   = Inr [Fin 0, Fin 0, Fin 1, Fin 0, Fin 0]"
  "deriveScores [nodeF, nodeR, nodeR2, nodeE, nodeL]
     [[Fin 0, Fin 0, Fin 0, Fin 0, Fin 0], [Fin 0, Fin 0, Fin 0, Fin 1, Fin 0],
      [Fin 0, Fin 0, Fin 0, Fin 0, Fin 0], [Fin 0, Fin 0, Fin 0, Fin 0, Fin 0],
      [Fin 0, Fin 0, Fin 1, Fin 0, Fin 0]]
     [Fin 0, Fin 0, Fin 0, Fin 0, Fin 1] [Fin 0, Fin 0, Fin 1, Fin 0, Fin 0]
   = \<lparr>replacementScore = Fin 0, completenessScore = Fin (1 / 2)\<rparr>"
  by code_simp+

lemma twoError_result:
  "computeGraphScoresFromGraphData twoErrorGraph [''E'']
   = Inr \<lparr>replacementScore = Fin 0, completenessScore = Fin (1 / 2)\<rparr>"
  by (rule compute_staged [OF twoError_matrix twoError_merged _ twoError_scores]) code_simp

lemma twoErrorPermuted_matrix:
  "reconstructAdjacencyMatrix (nodes twoErrorGraphPermuted) (links twoErrorGraphPermuted)
   = Inr ([[Fin 0, Fin 0, Fin 0, Fin 0, Fin 0], [Fin 0, Fin 0, Fin 0, Fin 0, Fin 0],
       [Fin 0, Fin 0, Fin 0, Fin 1, Fin 0], [Fin 0, Fin 0, Fin 0, Fin 0, Fin 0],
       [Fin 1, Fin 0, Fin 0, Fin 0, Fin 0]],
      [nodeF, nodeR2, nodeR, nodeE, nodeL])"
  by code_simp

lemma twoErrorPermuted_merged:
  "mergeStage [''E''] [nodeF, nodeR2, nodeR, nodeE, nodeL]
     [[Fin 0, Fin 0, Fin 0, Fin 0, Fin 0], [Fin 0, Fin 0, Fin 0, Fin 0, Fin 0],
      [Fin 0, Fin 0, Fin 0, Fin 1, Fin 0], [Fin 0, Fin 0, Fin 0, Fin 0, Fin 0],
      [Fin 1, Fin 0, Fin 0, Fin 0, Fin 0]]
   = [[Fin 0, Fin 0, Fin 0, Fin 0, Fin 0], [Fin 0, Fin 0, Fin 0, Fin 0, Fin 0],
      [Fin 0, Fin 0, Fin 0, Fin 1, Fin 0], [Fin 0, Fin 0, Fin 0, Fin 0, Fin 0],
      [Fin 0, Fin 0, Fin 1, Fin 0, Fin 0]]"
  by code_simp

lemma twoErrorPermuted_scores:
  "normalizeMatrix
     [[Fin 0, Fin 0, Fin 0, Fin 0, Fin 0], [Fin 0, Fin 0, Fin 0, Fin 0, Fin 0],
      [Fin 0, Fin 0, Fin 0, Fin 1, Fin 0], [Fin 0, Fin 0, Fin 0, Fin 0, Fin 0],
      [Fin 0, Fin 0, Fin 1, Fin 0, Fin 0]]
   = [[Fin 0, Fin 0, Fin 0, Fin 0, Fin 0], [Fin 0, Fin 0, Fin 0, Fin 0, Fin 0],
      [Fin 0, Fin 0, Fin 0, Fin 1, Fin 0], [Fin 0, Fin 0, Fin 0, Fin 0, Fin 0],
      [Fin 0, Fin 0, Fin 1, Fin 0, Fin 0]]"
  "computeInfluence
     [[Fin 0, Fin 0, Fin 0, Fin 0, Fin 0], [Fin 0, Fin 0, Fin 0, Fin 0, Fin 0],
      [Fin 0, Fin 0, Fin 0, Fin 1, Fin 0], [Fin 0, Fin 0, Fin 0, Fin 0, Fin 0],
      [Fin 0, Fin 0, Fin 1, Fin 0, Fin 0]]
     [Fin 0, Fin 0, Fin 0, Fin 0, Fin 1] 1000
   = Inr [Fin 0, Fin 0, Fin 1, Fin 1, Fin 0]"
  "deriveScores [nodeF, nodeR2, nodeR, nodeE, nodeL]
     [[Fin 0, Fin 0, Fin 0, Fin 0, Fin 0], [Fin 0, Fin 0, Fin 0, Fin 0, Fin 0],
      [Fin 0, Fin 0, Fin 0, Fin 1, Fin 0], [Fin 0, Fin 0, Fin 0, Fin 0, Fin 0],
      [Fin 0, Fin 0, Fin 1, Fin 0, Fin 0]]
     [Fin 0, Fin 0, Fin 0, Fin 0, Fin 1] [Fin 0, Fin 0, Fin 1, Fin 1, Fin 0]
   = \<lparr>replacementScore = Fin (1 / 2), completenessScore = Fin (2 / 3)\<rparr>"
  by code_simp+

lemma twoErrorPermuted_result:
  "computeGraphScoresFromGraphData twoErrorGraphPermuted [''E'']
   = Inr \<lparr>replacementScore = Fin (1 / 2), completenessScore = Fin (2 / 3)\<rparr>"
  by (rule compute_staged [OF twoErrorPermuted_matrix twoErrorPermuted_merged _ twoErrorPermuted_scores])
     code_simp

text \<open>
  C7, as the specification words it, fails. The two graphs have the same edges and the
  same nodes, two of which are reconstruction-error nodes for the same layer and
  position; these two have the same sort key, so the stable sort keeps the order of the
  input, and the unpinned feature node is merged into whichever of them comes last. The
  scores differ.
\<close>

theorem permuted_nodes_counterexample:
  "mset (nodes twoErrorGraphPermuted) = mset (nodes twoErrorGraph)
   \<and> links twoErrorGraphPermuted = links twoErrorGraph
   \<and> computeGraphScoresFromGraphData twoErrorGraph [''E'']
       = Inr \<lparr>replacementScore = Fin 0, completenessScore = Fin (1 / 2)\<rparr>
   \<and> computeGraphScoresFromGraphData twoErrorGraphPermuted [''E'']
       = Inr \<lparr>replacementScore = Fin (1 / 2), completenessScore = Fin (2 / 3)\<rparr>
   \<and> computeGraphScoresFromGraphData twoErrorGraphPermuted [''E'']
       \<noteq> computeGraphScoresFromGraphData twoErrorGraph [''E'']"
  by (simp add: twoError_result twoErrorPermuted_result)
     (simp add: twoErrorGraph_def twoErrorGraphPermuted_def)

section \<open>The sort is the stable sort by the key\<close>

lemma compareKeys_le_iff:
  "length a = length b \<Longrightarrow> compareKeys a b \<le> 0 \<longleftrightarrow> a \<le> b"
  by (induction a b rule: list_induct2) auto

lemma length_getSortKey: "length (getSortKey node) = 4"
  by (simp add: getSortKey_def Let_def)

lemma compareNodes_le_iff: "compareNodes a b \<le> 0 \<longleftrightarrow> getSortKey a \<le> getSortKey b"
  by (simp add: compareNodes_def compareKeys_le_iff length_getSortKey)

lemma insertNode_eq_insort: "insertNode x ns = insort_key getSortKey x ns"
  by (induction ns) (simp_all add: compareNodes_le_iff)

lemma sortNodes_eq_sort_key: "sortNodes ns = sort_key getSortKey ns"
proof -
  have "insertNode = insort_key getSortKey"
    by (intro ext) (rule insertNode_eq_insort)
  then show ?thesis
    by (simp add: sortNodes_def sort_key_def)
qed

lemma sortNodes_permuted:
  assumes "mset ns' = mset ns" and "distinct (map getSortKey ns)"
  shows "sortNodes ns' = sortNodes ns"
proof -
  have inj: "inj_on getSortKey (set ns')"
  proof -
    have "inj_on getSortKey (set ns)"
      using assms(2) by (simp add: distinct_map)
    moreover have "set ns' = set ns"
      using assms(1) by (rule mset_eq_setD)
    ultimately show ?thesis by simp
  qed
  have "sort_key getSortKey ns' = sort_key getSortKey ns"
    by (rule sort_key_inj_key_eq [OF _ inj]) (simp_all add: assms(1))
  then show ?thesis
    by (simp add: sortNodes_eq_sort_key)
qed

text \<open>
  C7, as the code has it. When no two nodes of the graph have the same sort key, the
  sorted node list does not depend on the order of the input nodes, and a call on a
  permutation of the node list, with the same edges and the same pinned identifiers,
  returns what the call on the original list returns.
\<close>

theorem compute_permutation_invariant:
  assumes "mset (nodes g') = mset (nodes g)" and "links g' = links g"
    and "distinct (map getSortKey (nodes g))"
  shows "computeGraphScoresFromGraphData g' pinnedIds = computeGraphScoresFromGraphData g pinnedIds"
proof -
  have "sortNodes (nodes g') = sortNodes (nodes g)"
    using assms(1,3) by (rule sortNodes_permuted)
  then have "reconstructAdjacencyMatrix (nodes g') (links g')
             = reconstructAdjacencyMatrix (nodes g) (links g)"
    by (simp add: reconstructAdjacencyMatrix_def assms(2))
  then show ?thesis
    by (simp add: computeGraphScoresFromGraphData_def)
qed

lemma scenario_keys:
  "map getSortKey (nodes scenarioGraph) = [[2, 0, 0, 0], [0, 3, 0, 5], [1, 3, 0, 0], [3, 4, 0, 0]]"
  by code_simp

theorem compute_permutation_invariant_witness:
  "mset (nodes (scenarioGraph\<lparr>nodes := [nodeL, nodeR, nodeF, nodeE]\<rparr>)) = mset (nodes scenarioGraph)
   \<and> links (scenarioGraph\<lparr>nodes := [nodeL, nodeR, nodeF, nodeE]\<rparr>) = links scenarioGraph
   \<and> distinct (map getSortKey (nodes scenarioGraph))
   \<and> computeGraphScoresFromGraphData (scenarioGraph\<lparr>nodes := [nodeL, nodeR, nodeF, nodeE]\<rparr>) [''E'']
       = Inr \<lparr>replacementScore = Fin (1 / 2), completenessScore = Fin (2 / 3)\<rparr>"
proof -
  have p: "mset (nodes (scenarioGraph\<lparr>nodes := [nodeL, nodeR, nodeF, nodeE]\<rparr>)) = mset (nodes scenarioGraph)"
    by (simp add: scenarioGraph_def)
  have l: "links (scenarioGraph\<lparr>nodes := [nodeL, nodeR, nodeF, nodeE]\<rparr>) = links scenarioGraph"
    by simp
  have d: "distinct (map getSortKey (nodes scenarioGraph))"
    by (simp add: scenario_keys)
  show ?thesis
    using p l d compute_permutation_invariant [OF p l d, of "[''E'']"]
    by (simp add: scenario_other_pinned)
qed

section \<open>The merge pass, row by row\<close>

lemma squareMatrix_mergeNode:
  "squareMatrix n m \<Longrightarrow> squareMatrix n (mergeNode pinnedIds errorIndex q m)"
  by (simp add: mergeNode_def Let_def squareMatrix_zeroRowAndColumn squareMatrix_mergeColumn
      split: option.splits)

lemma squareMatrix_fold_mergeNode:
  "squareMatrix n m \<Longrightarrow> squareMatrix n (fold (mergeNode pinnedIds errorIndex) qs m)"
  by (induction qs arbitrary: m) (simp_all add: squareMatrix_mergeNode)

lemma replicate_update_same: "(replicate n v)[j := v] = replicate n v"
  by (induction n arbitrary: j) (simp_all split: nat.split)

lemma zeroRowAndColumn_row:
  assumes "squareMatrix n m" and "r < n"
  shows "zeroRowAndColumn k m ! r = (if r = k then replicate n (Fin 0) else (m ! r)[k := Fin 0])"
proof -
  have "length m = n"
    using assms by (simp add: squareMatrix_def)
  then show ?thesis
    using assms(2)
    by (simp add: zeroRowAndColumn_square [OF assms(1)] nth_list_update replicate_update_same)
qed

lemma mergeColumn_row:
  "r < length m \<Longrightarrow> mergeColumn e k m ! r = (m ! r)[e := m ! r ! e + m ! r ! k]"
  by (simp add: mergeColumn_eq)

text \<open>A step of the pass computes each row of the new matrix from the same row of the old one.\<close>

lemma mergeNode_row:
  assumes "squareMatrix n m" and "squareMatrix n m'" and "r < n" and "m ! r = m' ! r"
  shows "mergeNode pinnedIds errorIndex q m ! r = mergeNode pinnedIds errorIndex q m' ! r"
proof -
  have len: "length m = n" "length m' = n"
    using assms by (simp_all add: squareMatrix_def)
  have z: "zeroRowAndColumn k m ! r = zeroRowAndColumn k m' ! r" for k
    by (simp add: zeroRowAndColumn_row [OF assms(1,3)] zeroRowAndColumn_row [OF assms(2,3)] assms(4))
  have c: "zeroRowAndColumn k (mergeColumn e k m) ! r = zeroRowAndColumn k (mergeColumn e k m') ! r" for k e
    using len assms(3,4)
    by (simp add: zeroRowAndColumn_row [OF squareMatrix_mergeColumn [OF assms(1)] assms(3)]
        zeroRowAndColumn_row [OF squareMatrix_mergeColumn [OF assms(2)] assms(3)] mergeColumn_row)
  show ?thesis
    by (simp add: mergeNode_def Let_def z c assms(4) split: option.splits)
qed

text \<open>The step for an unpinned feature node leaves its row zero.\<close>

lemma mergeNode_zero_row:
  assumes "squareMatrix n m" and "k < n"
    and "feature_type node = ''cross layer transcoder''" and "node_id node \<notin> set pinnedIds"
  shows "mergeNode pinnedIds errorIndex (k, node) m ! k = replicate n (Fin 0)"
  using assms(3,4)
  by (simp add: mergeNode_def zeroRowAndColumn_row [OF assms(1,2)]
      zeroRowAndColumn_row [OF squareMatrix_mergeColumn [OF assms(1)] assms(2)] split: option.splits)

text \<open>A row of zeros stays a row of zeros.\<close>

lemma mergeNode_keeps_zero_row:
  assumes "squareMatrix n m" and "r < n" and "fst q < n" and "m ! r = replicate n (Fin 0)"
  shows "mergeNode pinnedIds errorIndex q m ! r = replicate n (Fin 0)"
proof -
  have len: "length m = n"
    using assms by (simp add: squareMatrix_def)
  have upd: "(replicate n (Fin 0))[j := Fin 0] = replicate n (Fin 0)" for j
    by (rule replicate_update_same)
  have z: "zeroRowAndColumn (fst q) m ! r = replicate n (Fin 0)"
    by (simp add: zeroRowAndColumn_row [OF assms(1,2)] assms(4) upd)
  have c: "zeroRowAndColumn (fst q) (mergeColumn e (fst q) m) ! r = replicate n (Fin 0)" for e
  proof -
    have "mergeColumn e (fst q) m ! r = replicate n (Fin 0)"
      using len assms(2,3)
      by (cases "e < n") (simp_all add: mergeColumn_row assms(4) plus_jsnum_def upd list_update_beyond)
    then show ?thesis
      by (simp add: zeroRowAndColumn_row [OF squareMatrix_mergeColumn [OF assms(1)] assms(2)] upd)
  qed
  show ?thesis
    by (simp add: mergeNode_def Let_def z c assms(4) split: option.splits)
qed

lemma fold_mergeNode_keeps_zero_row:
  assumes "squareMatrix n m" and "r < n" and "list_all (\<lambda>q. fst q < n) qs"
    and "m ! r = replicate n (Fin 0)"
  shows "fold (mergeNode pinnedIds errorIndex) qs m ! r = replicate n (Fin 0)"
  using assms
proof (induction qs arbitrary: m)
  case Nil
  then show ?case by simp
next
  case (Cons q qs)
  have "mergeNode pinnedIds errorIndex q m ! r = replicate n (Fin 0)"
    using Cons.prems by (intro mergeNode_keeps_zero_row) simp_all
  then show ?case
    using Cons.prems by (simp add: Cons.IH squareMatrix_mergeNode)
qed

lemma fold_mergeNode_zero_row:
  assumes "squareMatrix n m" and "k < n" and "list_all (\<lambda>q. fst q < n) qs"
    and "(k, node) \<in> set qs"
    and "feature_type node = ''cross layer transcoder''" and "node_id node \<notin> set pinnedIds"
  shows "fold (mergeNode pinnedIds errorIndex) qs m ! k = replicate n (Fin 0)"
  using assms(1,3,4)
proof (induction qs arbitrary: m)
  case Nil
  then show ?case by simp
next
  case (Cons q qs)
  show ?case
  proof (cases "q = (k, node)")
    case True
    have "mergeNode pinnedIds errorIndex q m ! k = replicate n (Fin 0)"
      unfolding True by (rule mergeNode_zero_row [OF Cons.prems(1) assms(2,5,6)])
    then show ?thesis
      using Cons.prems assms(2)
      by (simp add: fold_mergeNode_keeps_zero_row squareMatrix_mergeNode)
  next
    case False
    then show ?thesis
      using Cons.prems by (simp add: Cons.IH squareMatrix_mergeNode)
  qed
qed

text \<open>
  Two matrices that agree outside the row of an unpinned feature node are taken to the
  same matrix by a run of steps that includes the step for that node.
\<close>

lemma fold_mergeNode_agree:
  assumes "k < n" and "(k, node) \<in> set qs"
    and "feature_type node = ''cross layer transcoder''" and "node_id node \<notin> set pinnedIds"
    and "squareMatrix n m" and "squareMatrix n m'"
    and "\<forall>r. r < n \<and> r \<noteq> k \<longrightarrow> m ! r = m' ! r"
  shows "fold (mergeNode pinnedIds errorIndex) qs m = fold (mergeNode pinnedIds errorIndex) qs m'"
  using assms(2,5,6,7)
proof (induction qs arbitrary: m m')
  case Nil
  then show ?case by simp
next
  case (Cons q qs)
  let ?s = "mergeNode pinnedIds errorIndex q"
  have sq: "squareMatrix n (?s m)" "squareMatrix n (?s m')"
    using Cons.prems by (simp_all add: squareMatrix_mergeNode)
  have rows: "\<forall>r. r < n \<and> r \<noteq> k \<longrightarrow> ?s m ! r = ?s m' ! r"
    using Cons.prems mergeNode_row [of n m m'] by blast
  show ?case
  proof (cases "q = (k, node)")
    case True
    have "?s m ! k = ?s m' ! k"
      unfolding True
      by (simp add: mergeNode_zero_row [OF Cons.prems(2) assms(1,3,4)]
          mergeNode_zero_row [OF Cons.prems(3) assms(1,3,4)])
    with rows have "\<forall>r. r < n \<longrightarrow> ?s m ! r = ?s m' ! r"
      by metis
    moreover have "length (?s m) = n" "length (?s m') = n"
      using sq by (simp_all add: squareMatrix_def)
    ultimately have "?s m = ?s m'"
      by (intro nth_equalityI) simp_all
    then show ?thesis by simp
  next
    case False
    then have "(k, node) \<in> set qs"
      using Cons.prems(1) by simp
    then show ?thesis
      using Cons.IH [OF _ sq rows] by simp
  qed
qed

lemma enumerate_indices: "list_all (\<lambda>q. fst q < length ns) (enumerate 0 ns)"
  by (simp add: list_all_iff in_set_enumerate_eq)

lemma enumerate_member: "k < length ns \<Longrightarrow> (k, ns ! k) \<in> set (enumerate 0 ns)"
  by (simp add: in_set_enumerate_eq)

lemma squareMatrix_mergeStage:
  "squareMatrix n m \<Longrightarrow> squareMatrix n (mergeStage pinnedIds sortedNodes m)"
  by (simp add: mergeStage_def mergePass_def squareMatrix_fold_mergeNode)

text \<open>
  C10. Let \<open>pinnedIds\<close> be non-empty, and let \<open>f1 < f2\<close> be the indices of two unpinned
  transcoder-feature nodes whose keys have error nodes, at \<open>e1\<close> and \<open>e2\<close>. The entry
  \<open>(f2, f1)\<close> of the matrix holds the weight of the edge from the first to the second.
  When the first node is merged, on whatever matrix the pass has reached, that entry is
  added to the entry \<open>(f2, e1)\<close>; when the pass is over, row \<open>f2\<close> is zero; and the matrix
  the pass returns is the same whatever the weight of the edge was: the weight reaches no
  entry of the result, the entry \<open>(e2, e1)\<close> included.
\<close>

theorem edge_between_merged_features_vanishes:
  assumes "pinnedIds \<noteq> []"
    and "squareMatrix (length sortedNodes) m"
    and "f1 < f2" and "f2 < length sortedNodes"
    and "feature_type (sortedNodes ! f1) = ''cross layer transcoder''"
    and "node_id (sortedNodes ! f1) \<notin> set pinnedIds"
    and "feature_type (sortedNodes ! f2) = ''cross layer transcoder''"
    and "node_id (sortedNodes ! f2) \<notin> set pinnedIds"
    and "errorIndexByKey sortedNodes (mergeKey (sortedNodes ! f1)) = Some e1"
    and "errorIndexByKey sortedNodes (mergeKey (sortedNodes ! f2)) = Some e2"
  shows "mergeNode pinnedIds (errorIndexByKey sortedNodes) (f1, sortedNodes ! f1) m ! f2 ! e1
           = m ! f2 ! e1 + m ! f2 ! f1
    \<and> mergeStage pinnedIds sortedNodes m ! f2 = replicate (length sortedNodes) (Fin 0)
    \<and> (\<forall>w. mergeStage pinnedIds sortedNodes (setEntry f2 f1 w m) = mergeStage pinnedIds sortedNodes m)"
proof -
  let ?n = "length sortedNodes"
  let ?E = "errorIndexByKey sortedNodes"
  have f1: "f1 < ?n"
    using assms(3,4) by simp
  have e1: "e1 < ?n" and e1_type: "feature_type (sortedNodes ! e1) = ''mlp reconstruction error''"
    using assms(9) by (simp_all add: errorIndexByKey_Some_iff)
  have e1_f1: "e1 \<noteq> f1"
    using e1_type assms(5) by auto
  have first: "mergeNode pinnedIds ?E (f1, sortedNodes ! f1) m ! f2 ! e1 = m ! f2 ! e1 + m ! f2 ! f1"
  proof -
    have "mergeNode pinnedIds ?E (f1, sortedNodes ! f1) m
          = zeroRowAndColumn f1 (mergeColumn e1 f1 m)"
      using assms(5,6,9) by (simp add: mergeNode_def)
    then show ?thesis
      using merged_entry [OF assms(2) f1 assms(4) e1 _ e1_f1, of e1] assms(3) by simp
  qed
  have second: "mergeStage pinnedIds sortedNodes m ! f2 = replicate ?n (Fin 0)"
    using assms(1)
      fold_mergeNode_zero_row [OF assms(2,4) enumerate_indices enumerate_member [OF assms(4)] assms(7,8)]
    by (simp add: mergeStage_def mergePass_def)
  have third: "mergeStage pinnedIds sortedNodes (setEntry f2 f1 w m) = mergeStage pinnedIds sortedNodes m" for w
  proof -
    have sq: "squareMatrix ?n (setEntry f2 f1 w m)"
      using assms(2) by (rule squareMatrix_setEntry)
    have rows: "\<forall>r. r < ?n \<and> r \<noteq> f2 \<longrightarrow> setEntry f2 f1 w m ! r = m ! r"
      by (simp add: setEntry_def)
    show ?thesis
      using assms(1)
        fold_mergeNode_agree [OF assms(4) enumerate_member [OF assms(4)] assms(7,8) sq assms(2) rows]
      by (simp add: mergeStage_def mergePass_def)
  qed
  show ?thesis
    using first second third by simp
qed

lemma four_nodes_lookup:
  "errorIndexByKey [nodeF, nodeF4, nodeR, nodeR4] (mergeKey nodeF) = Some 2"
  "errorIndexByKey [nodeF, nodeF4, nodeR, nodeR4] (mergeKey nodeF4) = Some 3"
  by code_simp+

theorem edge_between_merged_features_vanishes_witness:
  "mergeNode [''E''] (errorIndexByKey [nodeF, nodeF4, nodeR, nodeR4]) (0, nodeF) matrix4 ! 1 ! 2 = Fin 12
   \<and> mergeStage [''E''] [nodeF, nodeF4, nodeR, nodeR4] matrix4 ! 1 = [Fin 0, Fin 0, Fin 0, Fin 0]
   \<and> mergeStage [''E''] [nodeF, nodeF4, nodeR, nodeR4] (setEntry 1 0 (Fin 100) matrix4)
       = mergeStage [''E''] [nodeF, nodeF4, nodeR, nodeR4] matrix4"
proof -
  have sq: "squareMatrix (length [nodeF, nodeF4, nodeR, nodeR4]) matrix4"
    by (simp add: squareMatrix_def matrix4_def)
  have t: "feature_type ([nodeF, nodeF4, nodeR, nodeR4] ! 0) = ''cross layer transcoder''"
    "node_id ([nodeF, nodeF4, nodeR, nodeR4] ! 0) \<notin> set [''E'']"
    "feature_type ([nodeF, nodeF4, nodeR, nodeR4] ! 1) = ''cross layer transcoder''"
    "node_id ([nodeF, nodeF4, nodeR, nodeR4] ! 1) \<notin> set [''E'']"
    by (simp_all add: nodeF_def nodeF4_def mkNode_def)
  have l: "errorIndexByKey [nodeF, nodeF4, nodeR, nodeR4] (mergeKey ([nodeF, nodeF4, nodeR, nodeR4] ! 0)) = Some 2"
    "errorIndexByKey [nodeF, nodeF4, nodeR, nodeR4] (mergeKey ([nodeF, nodeF4, nodeR, nodeR4] ! 1)) = Some 3"
    by (simp_all add: four_nodes_lookup)
  have "[''E''] \<noteq> ([] :: string list)" "(0::nat) < 1" "(1::nat) < length [nodeF, nodeF4, nodeR, nodeR4]"
    by simp_all
  from edge_between_merged_features_vanishes [OF this(1) sq this(2,3) t l]
  show ?thesis
    by (simp add: matrix4_def plus_jsnum_def)
qed

section \<open>The influence loop\<close>

lemma length_applyMatrix: "length (applyMatrix A v) = length (A ! 0)"
  by (simp add: applyMatrix_def)

lemma influenceLoop_step:
  assumes "hasNonZero cur" and "it < maxIter" and "length cur \<le> length A"
  shows "influenceLoop A maxIter cur infl it
         = influenceLoop A maxIter (applyMatrix A cur) (addVector infl (applyMatrix A cur)) (Suc it)"
  using assms
  by (subst influenceLoop.simps) (simp add: hasNonZero_def rowsMissing_def addVector_def Let_def)

lemma influenceLoop_done:
  "\<not> hasNonZero cur \<Longrightarrow> influenceLoop A maxIter cur infl it = Inr infl"
  by (subst influenceLoop.simps) (simp add: hasNonZero_def)

lemma influenceLoop_ceiling:
  "hasNonZero cur \<Longrightarrow> maxIter \<le> it \<Longrightarrow>
   influenceLoop A maxIter cur infl it = Inl (Error (convergenceMessage it))"
  by (subst influenceLoop.simps) (simp add: hasNonZero_def)

lemma influenceLoop_converges:
  assumes "length (A ! 0) \<le> length A"
  shows "length cur = length (A ! 0) \<Longrightarrow>
         \<forall>j<k. hasNonZero ((applyMatrix A ^^ j) cur) \<Longrightarrow>
         \<not> hasNonZero ((applyMatrix A ^^ k) cur) \<Longrightarrow>
         it + k \<le> maxIter \<Longrightarrow>
         influenceLoop A maxIter cur infl it
         = Inr (foldl addVector infl (map (\<lambda>j. (applyMatrix A ^^ j) cur) [1..<Suc k]))"
proof (induction k arbitrary: cur infl it)
  case 0
  then show ?case by (simp add: influenceLoop_done)
next
  case (Suc k)
  let ?F = "applyMatrix A"
  have nz: "hasNonZero cur"
    using Suc.prems(2) by (metis funpow_0 zero_less_Suc)
  have len: "length cur \<le> length A"
    using Suc.prems(1) assms by simp
  have step: "influenceLoop A maxIter cur infl it
              = influenceLoop A maxIter (?F cur) (addVector infl (?F cur)) (Suc it)"
    using nz Suc.prems(4) len by (intro influenceLoop_step) simp_all
  have shift: "(?F ^^ j) (?F cur) = (?F ^^ Suc j) cur" for j
    by (simp add: funpow_swap1)
  have a: "\<forall>j<k. hasNonZero ((?F ^^ j) (?F cur))"
    using Suc.prems(2) by (simp add: shift del: funpow.simps)
  have b: "\<not> hasNonZero ((?F ^^ k) (?F cur))"
    using Suc.prems(3) by (simp add: shift del: funpow.simps)
  have "influenceLoop A maxIter (?F cur) (addVector infl (?F cur)) (Suc it)
        = Inr (foldl addVector (addVector infl (?F cur)) (map (\<lambda>j. (?F ^^ j) (?F cur)) [1..<Suc k]))"
    using Suc.prems(4) by (intro Suc.IH [OF _ a b]) (simp_all add: length_applyMatrix)
  also have "map (\<lambda>j. (?F ^^ j) (?F cur)) [1..<Suc k] = map (\<lambda>j. (?F ^^ j) cur) (map Suc [1..<Suc k])"
    by (simp add: shift del: funpow.simps)
  also have "map Suc [1..<Suc k] = [2..<Suc (Suc k)]"
    by (simp add: map_Suc_upt numeral_2_eq_2 del: upt_Suc)
  also have "foldl addVector (addVector infl (?F cur)) (map (\<lambda>j. (?F ^^ j) cur) [2..<Suc (Suc k)])
             = foldl addVector infl (map (\<lambda>j. (?F ^^ j) cur) [1..<Suc (Suc k)])"
  proof -
    have "[1..<Suc (Suc k)] = 1 # [2..<Suc (Suc k)]"
      by (simp add: upt_conv_Cons numeral_2_eq_2 del: upt_Suc)
    then show ?thesis by simp
  qed
  finally show ?case
    using step by simp
qed

lemma influenceLoop_diverges:
  assumes "length (A ! 0) \<le> length A"
  shows "length cur = length (A ! 0) \<Longrightarrow>
         \<forall>j\<le>d. hasNonZero ((applyMatrix A ^^ j) cur) \<Longrightarrow>
         it + d = maxIter \<Longrightarrow>
         influenceLoop A maxIter cur infl it = Inl (Error (convergenceMessage maxIter))"
proof (induction d arbitrary: cur infl it)
  case 0
  then show ?case by (simp add: influenceLoop_ceiling)
next
  case (Suc d)
  let ?F = "applyMatrix A"
  have nz: "hasNonZero cur"
    using Suc.prems(2) by (metis funpow_0 le0)
  have len: "length cur \<le> length A"
    using Suc.prems(1) assms by simp
  have step: "influenceLoop A maxIter cur infl it
              = influenceLoop A maxIter (?F cur) (addVector infl (?F cur)) (Suc it)"
    using nz Suc.prems(3) len by (intro influenceLoop_step) simp_all
  have shift: "(?F ^^ j) (?F cur) = (?F ^^ Suc j) cur" for j
    by (simp add: funpow_swap1)
  have a: "\<forall>j\<le>d. hasNonZero ((?F ^^ j) (?F cur))"
    using Suc.prems(2) by (simp add: shift del: funpow.simps)
  show ?case
    unfolding step using Suc.prems(3)
    by (intro Suc.IH [OF _ a]) (simp_all add: length_applyMatrix)
qed

lemma convergenceMessage_1000:
  "convergenceMessage 1000 = ''Influence computation failed to converge after 1000 iterations''"
  by code_simp

text \<open>
  The loop on a matrix without a missing row. Let the matrix have at least one row, at
  least as many rows as the logit-weight vector has entries and at least as many rows as
  columns (as the square matrix of a graph with at least one node has). If each of the
  iterates \<open>0, ..., 1000\<close> has a non-zero entry, \<^verbatim>\<open>computeInfluence\<close> throws the error with
  the message \<^verbatim>\<open>Influence computation failed to converge after 1000 iterations\<close>. If the
  iterate \<open>k\<close>, for a \<open>k\<close> of at most \<open>1000\<close>, is the first that is all zero, it returns
  the sum of the iterates \<open>0, ..., k\<close>.
\<close>

theorem computeInfluence_converges_or_throws:
  assumes "A \<noteq> []" and "length logitWeights \<le> length A" and "length (A ! 0) \<le> length A"
  shows "((\<forall>k. k \<le> 1000 \<longrightarrow> hasNonZero (influenceIterate A logitWeights k)) \<longrightarrow>
            computeInfluence A logitWeights 1000
              = Inl (Error ''Influence computation failed to converge after 1000 iterations''))
       \<and> (\<forall>k. k \<le> 1000 \<and> \<not> hasNonZero (influenceIterate A logitWeights k)
                \<and> (\<forall>j. j < k \<longrightarrow> hasNonZero (influenceIterate A logitWeights j)) \<longrightarrow>
            computeInfluence A logitWeights 1000 = Inr (accumulatedInfluence A logitWeights k))"
proof -
  let ?seed = "applyMatrix A logitWeights"
  have start: "computeInfluence A logitWeights 1000 = influenceLoop A 1000 ?seed ?seed 0"
    using assms(1,2) by (simp add: computeInfluence_def rowsMissing_def Let_def)
  have len: "length ?seed = length (A ! 0)"
    by (rule length_applyMatrix)
  have throws: "computeInfluence A logitWeights 1000
                = Inl (Error ''Influence computation failed to converge after 1000 iterations'')"
    if "\<forall>k. k \<le> 1000 \<longrightarrow> hasNonZero (influenceIterate A logitWeights k)"
  proof -
    have "\<forall>j\<le>1000. hasNonZero ((applyMatrix A ^^ j) ?seed)"
      using that by (simp add: influenceIterate_def)
    then have "influenceLoop A 1000 ?seed ?seed 0 = Inl (Error (convergenceMessage 1000))"
      by (intro influenceLoop_diverges [OF assms(3) len]) simp_all
    then show ?thesis
      by (simp add: start convergenceMessage_1000)
  qed
  have returns: "computeInfluence A logitWeights 1000 = Inr (accumulatedInfluence A logitWeights k)"
    if "k \<le> 1000" and "\<not> hasNonZero (influenceIterate A logitWeights k)"
      and "\<forall>j. j < k \<longrightarrow> hasNonZero (influenceIterate A logitWeights j)" for k
  proof -
    have a: "\<forall>j<k. hasNonZero ((applyMatrix A ^^ j) ?seed)"
      using that(3) by (simp add: influenceIterate_def)
    have b: "\<not> hasNonZero ((applyMatrix A ^^ k) ?seed)"
      using that(2) by (simp add: influenceIterate_def)
    have "influenceLoop A 1000 ?seed ?seed 0
          = Inr (foldl addVector ?seed (map (\<lambda>j. (applyMatrix A ^^ j) ?seed) [1..<Suc k]))"
      using that(1) by (intro influenceLoop_converges [OF assms(3) len a b]) simp
    then show ?thesis
      by (simp add: start accumulatedInfluence_def influenceIterate_def [abs_def])
  qed
  show ?thesis
    using throws returns by blast
qed

lemma self_loop_iterate: "influenceIterate [[Fin 1]] [Fin 1] k = [Fin 1]"
proof (induction k)
  case 0
  show ?case
    by (simp add: influenceIterate_def applyMatrix_def entry_def plus_jsnum_def times_jsnum_def)
next
  case (Suc k)
  have "influenceIterate [[Fin 1]] [Fin 1] (Suc k)
        = applyMatrix [[Fin 1]] (influenceIterate [[Fin 1]] [Fin 1] k)"
    by (simp add: influenceIterate_def)
  then show ?case
    by (simp add: Suc applyMatrix_def entry_def plus_jsnum_def times_jsnum_def)
qed

lemma chain_iterates:
  "influenceIterate [[Fin 0, Fin 0], [Fin 1, Fin 0]] [Fin 0, Fin 1] 0 = [Fin 1, Fin 0]"
  "influenceIterate [[Fin 0, Fin 0], [Fin 1, Fin 0]] [Fin 0, Fin 1] 1 = [Fin 0, Fin 0]"
  "accumulatedInfluence [[Fin 0, Fin 0], [Fin 1, Fin 0]] [Fin 0, Fin 1] 1 = [Fin 1, Fin 0]"
  by code_simp+

theorem computeInfluence_converges_or_throws_witness:
  "hasNonZero (influenceIterate [[Fin 1]] [Fin 1] 1000)
   \<and> computeInfluence [[Fin 1]] [Fin 1] 1000
       = Inl (Error ''Influence computation failed to converge after 1000 iterations'')
   \<and> hasNonZero (influenceIterate [[Fin 0, Fin 0], [Fin 1, Fin 0]] [Fin 0, Fin 1] 0)
   \<and> \<not> hasNonZero (influenceIterate [[Fin 0, Fin 0], [Fin 1, Fin 0]] [Fin 0, Fin 1] 1)
   \<and> computeInfluence [[Fin 0, Fin 0], [Fin 1, Fin 0]] [Fin 0, Fin 1] 1000 = Inr [Fin 1, Fin 0]"
proof -
  have loop: "\<forall>k. k \<le> 1000 \<longrightarrow> hasNonZero (influenceIterate [[Fin 1]] [Fin 1] k)"
    by (simp add: self_loop_iterate hasNonZero_def)
  have "[[Fin 1]] \<noteq> ([] :: matrix)" "length [Fin 1] \<le> length [[Fin 1]]"
    "length ([[Fin 1]] ! 0) \<le> length [[Fin 1]]"
    by simp_all
  from computeInfluence_converges_or_throws [OF this, THEN conjunct1] loop
  have throws: "computeInfluence [[Fin 1]] [Fin 1] 1000
       = Inl (Error ''Influence computation failed to converge after 1000 iterations'')"
    by blast
  have first: "hasNonZero (influenceIterate [[Fin 0, Fin 0], [Fin 1, Fin 0]] [Fin 0, Fin 1] 0)"
    and second: "\<not> hasNonZero (influenceIterate [[Fin 0, Fin 0], [Fin 1, Fin 0]] [Fin 0, Fin 1] 1)"
    unfolding chain_iterates hasNonZero_def by simp_all
  have "[[Fin 0, Fin 0], [Fin 1, Fin 0]] \<noteq> ([] :: matrix)"
    "length [Fin 0, Fin 1] \<le> length [[Fin 0, Fin 0], [Fin 1, Fin 0]]"
    "length ([[Fin 0, Fin 0], [Fin 1, Fin 0]] ! 0) \<le> length [[Fin 0, Fin 0], [Fin 1, Fin 0]]"
    by simp_all
  note chain = computeInfluence_converges_or_throws [OF this, THEN conjunct2]
  have prem: "(1::nat) \<le> 1000
      \<and> \<not> hasNonZero (influenceIterate [[Fin 0, Fin 0], [Fin 1, Fin 0]] [Fin 0, Fin 1] 1)
      \<and> (\<forall>j. j < 1 \<longrightarrow> hasNonZero (influenceIterate [[Fin 0, Fin 0], [Fin 1, Fin 0]] [Fin 0, Fin 1] j))"
    using first second by simp
  have "computeInfluence [[Fin 0, Fin 0], [Fin 1, Fin 0]] [Fin 0, Fin 1] 1000
        = Inr (accumulatedInfluence [[Fin 0, Fin 0], [Fin 1, Fin 0]] [Fin 0, Fin 1] 1)"
    using chain prem by blast
  then have returns:
    "computeInfluence [[Fin 0, Fin 0], [Fin 1, Fin 0]] [Fin 0, Fin 1] 1000 = Inr [Fin 1, Fin 0]"
    unfolding chain_iterates .
  show ?thesis
    using loop throws first second returns by simp
qed

text \<open>
  C5. For the graph without nodes the worker passes the empty matrix and the empty
  vector of logit weights. No application of the matrix can give a non-zero entry: the
  seed has as many entries as the matrix has columns, and the vector without entries has
  no non-zero one. But \<^verbatim>\<open>computeInfluence\<close> reads \<^verbatim>\<open>A[0].length\<close> before anything else and
  ends in a \<^verbatim>\<open>TypeError\<close>: it neither returns the accumulated influence nor throws the
  convergence failure.
\<close>

theorem computeInfluence_empty_matrix_TypeError:
  "normalizeMatrix (mergeStage pinnedIds [] []) = []
   \<and> buildLogitWeights [] (length ([] :: matrix)) = []
   \<and> \<not> hasNonZero []
   \<and> computeInfluence [] [] 1000 = Inl TypeError"
  by (simp add: normalizeMatrix_def mergeStage_def mergePass_def buildLogitWeights_def countType_def
      hasNonZero_def computeInfluence_def)

section \<open>A graph without edges\<close>

lemma zero_matrix_rows:
  assumes "squareMatrix n m" and "\<forall>r<n. m ! r = replicate n (Fin 0)"
  shows "m = replicate n (replicate n (Fin 0))"
  using assms by (intro nth_equalityI) (simp_all add: squareMatrix_def)

lemma mergeStage_zero_matrix:
  "mergeStage pinnedIds sortedNodes (replicate (length sortedNodes) (replicate (length sortedNodes) (Fin 0)))
   = replicate (length sortedNodes) (replicate (length sortedNodes) (Fin 0))"
proof -
  let ?n = "length sortedNodes"
  let ?Z = "replicate ?n (replicate ?n (Fin 0))"
  have sq: "squareMatrix ?n ?Z"
    by (rule squareMatrix_replicate)
  have "fold (mergeNode pinnedIds (errorIndexByKey sortedNodes)) (enumerate 0 sortedNodes) ?Z = ?Z"
  proof (rule zero_matrix_rows)
    show "squareMatrix ?n (fold (mergeNode pinnedIds (errorIndexByKey sortedNodes)) (enumerate 0 sortedNodes) ?Z)"
      using sq by (rule squareMatrix_fold_mergeNode)
    show "\<forall>r<?n. fold (mergeNode pinnedIds (errorIndexByKey sortedNodes)) (enumerate 0 sortedNodes) ?Z ! r
                 = replicate ?n (Fin 0)"
      using fold_mergeNode_keeps_zero_row [OF sq _ enumerate_indices] by simp
  qed
  then show ?thesis
    by (simp add: mergeStage_def mergePass_def)
qed

lemma normalizeRow_zero: "normalizeRow (replicate n (Fin 0)) = replicate n (Fin 0)"
proof -
  have "list_all isFin (replicate n (Fin 0))"
    by (simp add: list_all_length)
  then show ?thesis
    by (simp add: normalizeRow_Fin map_replicate_const)
qed

lemma normalizeMatrix_zero:
  "normalizeMatrix (replicate n (replicate k (Fin 0))) = replicate n (replicate k (Fin 0))"
  by (simp add: normalizeMatrix_def normalizeRow_zero)

lemma fold_logitWeights:
  assumes "length ps = k" and "k \<le> n"
  shows "j \<le> k \<Longrightarrow>
         fold (\<lambda>i lw. lw[n - k + i := ps ! i]) [0..<j] (replicate n z)
         = replicate (n - k) z @ take j ps @ replicate (k - j) z"
proof (induction j)
  case 0
  then show ?case
    using assms by (simp add: replicate_add [symmetric])
next
  case (Suc j)
  then have j: "j < k" by simp
  have "fold (\<lambda>i lw. lw[n - k + i := ps ! i]) [0..<Suc j] (replicate n z)
        = (replicate (n - k) z @ take j ps @ replicate (k - j) z)[n - k + j := ps ! j]"
    using Suc by simp
  also have "\<dots> = replicate (n - k) z @ (take j ps @ replicate (k - j) z)[j := ps ! j]"
    by (simp add: list_update_append)
  also have "(take j ps @ replicate (k - j) z)[j := ps ! j] = take j ps @ (replicate (k - j) z)[0 := ps ! j]"
    using j assms(1) by (simp add: list_update_append)
  also have "replicate (k - j) z = z # replicate (k - Suc j) z"
    using j by (simp add: Suc_diff_Suc replicate_Suc [symmetric] del: replicate_Suc)
  also have "take j ps @ (z # replicate (k - Suc j) z)[0 := ps ! j] = take (Suc j) ps @ replicate (k - Suc j) z"
    using j assms(1) by (simp add: take_Suc_conv_app_nth)
  finally show ?case .
qed

lemma countType_le: "countType t ns \<le> length ns"
  by (simp add: countType_def)

lemma buildLogitWeights_eq:
  assumes "n = length sortedNodes"
  shows "buildLogitWeights sortedNodes n
         = replicate (n - countType ''logit'' sortedNodes) (Fin 0)
           @ map token_prob (filter (\<lambda>n. feature_type n = ''logit'') sortedNodes)"
proof -
  let ?ps = "map token_prob (filter (\<lambda>n. feature_type n = ''logit'') sortedNodes)"
  let ?k = "countType ''logit'' sortedNodes"
  have k: "length ?ps = ?k" "?k \<le> n"
    using assms by (simp_all add: countType_def)
  show ?thesis
    using fold_logitWeights [OF k, of ?k "Fin 0"] k
    by (simp add: buildLogitWeights_def Let_def)
qed

lemma jsAdd_zero_left: "Fin 0 + x = x"
  by (cases x) (simp_all add: plus_jsnum_def)

lemma jsMul_one_left: "Fin 1 * x = x"
  by (cases x) (simp_all add: times_jsnum_def signedInf_def)

lemma jsMul_zero_right: "isFin x \<Longrightarrow> x * Fin 0 = Fin 0"
  by (cases x) (simp_all add: times_jsnum_def)

lemma sumUp_zeros: "sumUp (replicate n (Fin 0)) = Fin 0"
proof -
  have "list_all isFin (replicate n (Fin 0))"
    by (simp add: list_all_length)
  then show ?thesis
    by (simp add: sumUp_Fin sum_list_replicate)
qed

lemma applyMatrix_zero:
  assumes "list_all isFin lw" and "length lw = n" and "0 < n"
  shows "applyMatrix (replicate n (replicate n (Fin 0))) lw = replicate n (Fin 0)"
proof -
  have inner: "\<forall>i\<in>set is. i < n \<Longrightarrow> j < n \<Longrightarrow>
       fold (\<lambda>i acc. acc + lw ! i * entry (replicate n (replicate n (Fin 0))) i j) is (Fin 0) = Fin 0"
    for "is" j
  proof (induction "is")
    case Nil
    then show ?case by simp
  next
    case (Cons i "is")
    have "isFin (lw ! i)"
      using assms Cons.prems by (simp add: list_all_length)
    then show ?case
      using Cons by (simp add: entry_def jsMul_zero_right jsAdd_zero_left)
  qed
  have "applyMatrix (replicate n (replicate n (Fin 0))) lw = map (\<lambda>j. Fin 0) [0..<n]"
    using assms(2,3) by (simp add: applyMatrix_def inner)
  then show ?thesis
    by (simp add: map_replicate_const)
qed

lemma computeInfluence_zero:
  assumes "list_all isFin lw" and "length lw = n" and "0 < n"
  shows "computeInfluence (replicate n (replicate n (Fin 0))) lw 1000 = Inr (replicate n (Fin 0))"
proof -
  have "\<not> hasNonZero (replicate n (Fin 0))"
    by (simp add: hasNonZero_def list_ex_iff)
  then show ?thesis
    using assms
    by (simp add: computeInfluence_def rowsMissing_def applyMatrix_zero influenceLoop_done Let_def)
qed

lemma slice_replicate: "slice a b (replicate n v) = replicate (min b n - a) v"
  by (simp add: slice_def)

lemma map_index_cong:
  "(\<And>i. i < n \<Longrightarrow> f i = xs ! i) \<Longrightarrow> length xs = n \<Longrightarrow> map f [0..<n] = xs"
  by (intro nth_equalityI) simp_all

lemma deriveScores_zero:
  assumes "length lw = n" and "list_all isFin lw"
  shows "deriveScores sortedNodes (replicate n (replicate n (Fin 0))) lw (replicate n (Fin 0))
         = \<lparr>replacementScore = Fin 0,
            completenessScore = (if sum_list (map realOf lw) = 0 then Fin 0 else Fin 1)\<rparr>"
proof -
  have zsum: "sumUp (slice a b (replicate n (Fin 0))) = Fin 0" for a b
    by (simp add: slice_replicate sumUp_zeros)
  have repl: "coerceNaN (Fin 0 / (Fin 0 + Fin 0)) = Fin 0"
    by (simp add: coerceNaN_def divide_jsnum_def plus_jsnum_def)
  have fractions: "map (\<lambda>row. Fin 1 - sumUp (slice a b row)) (replicate n (replicate n (Fin 0)))
                   = replicate n (Fin 1)" for a b
    by (simp add: zsum minus_jsnum_def)
  have out: "map (\<lambda>i. replicate n (Fin 0) ! i + lw ! i) [0..<length (replicate n (Fin 0))] = lw"
    using assms(1) by (intro map_index_cong) (simp_all add: jsAdd_zero_left)
  have weighted: "map (\<lambda>i. replicate n (Fin 1) ! i * lw ! i) [0..<length (replicate n (Fin 1))] = lw"
    using assms(1) by (intro map_index_cong) (simp_all add: jsMul_one_left)
  have total: "sumUp lw = Fin (sum_list (map realOf lw))"
    using assms(2) by (rule sumUp_Fin)
  have compl: "coerceNaN (sumUp lw / sumUp lw)
               = (if sum_list (map realOf lw) = 0 then Fin 0 else Fin 1)"
    by (simp add: total coerceNaN_def divide_jsnum_def)
  show ?thesis
    unfolding deriveScores_def Let_def zsum repl fractions out weighted compl ..
qed

lemma sortNodes_mset: "mset (sortNodes ns) = mset ns"
  by (simp add: sortNodes_eq_sort_key)

lemma finiteLogitProbs_sortNodes: "finiteLogitProbs (sortNodes ns) = finiteLogitProbs ns"
proof -
  have "set (sortNodes ns) = set ns"
    using sortNodes_mset by (rule mset_eq_setD)
  then show ?thesis
    by (simp add: finiteLogitProbs_def list_all_iff)
qed

lemma logitProbSum_sortNodes: "logitProbSum (sortNodes ns) = logitProbSum ns"
proof -
  have "mset (map (\<lambda>n. realOf (token_prob n)) (filter (\<lambda>n. feature_type n = ''logit'') (sortNodes ns)))
        = mset (map (\<lambda>n. realOf (token_prob n)) (filter (\<lambda>n. feature_type n = ''logit'') ns))"
    by (simp add: sortNodes_mset)
  then show ?thesis
    unfolding logitProbSum_def by (metis sum_mset_sum_list)
qed

lemma reconstructAdjacencyMatrix_no_edges:
  "reconstructAdjacencyMatrix ns []
   = Inr (replicate (length ns) (replicate (length ns) (Fin 0)), sortNodes ns)"
  by (simp add: reconstructAdjacencyMatrix_def Let_def length_sortNodes)

text \<open>
  C4, as the code has it. For a graph with at least one node and no edge, whose logit
  nodes carry finite probabilities, the call returns scores, whatever the pinned
  identifiers are: the replacement score is \<open>0\<close>, and the completeness score is \<open>1\<close> when
  the probabilities of the logit nodes sum to a non-zero value and \<open>0\<close> when they sum to
  zero (as they do when there is no logit node).
\<close>

theorem compute_without_edges:
  assumes "nodes g \<noteq> []" and "links g = []" and "finiteLogitProbs (nodes g)"
  shows "computeGraphScoresFromGraphData g pinnedIds
         = Inr \<lparr>replacementScore = Fin 0,
                completenessScore = (if logitProbSum (nodes g) = 0 then Fin 0 else Fin 1)\<rparr>"
proof -
  let ?sns = "sortNodes (nodes g)"
  let ?n = "length ?sns"
  let ?Z = "replicate ?n (replicate ?n (Fin 0))"
  let ?lw = "buildLogitWeights ?sns ?n"
  let ?ps = "map token_prob (filter (\<lambda>n. feature_type n = ''logit'') ?sns)"
  have n: "?n = length (nodes g)" "0 < ?n"
    using assms(1) by (simp_all add: length_sortNodes)
  have rec: "reconstructAdjacencyMatrix (nodes g) (links g) = Inr (?Z, ?sns)"
    by (simp add: assms(2) reconstructAdjacencyMatrix_no_edges length_sortNodes)
  have merged: "mergeStage pinnedIds ?sns ?Z = ?Z"
    by (rule mergeStage_zero_matrix)
  have lw: "?lw = replicate (?n - countType ''logit'' ?sns) (Fin 0) @ ?ps"
    by (rule buildLogitWeights_eq) simp
  have fin_ps: "list_all isFin ?ps"
    using assms(3) finiteLogitProbs_sortNodes [of "nodes g"]
    by (simp add: finiteLogitProbs_def list_all_iff)
  have fin: "list_all isFin ?lw"
    unfolding lw using fin_ps by (auto simp: list_all_iff)
  have len: "length ?lw = ?n"
    unfolding lw using countType_le [of "''logit''" ?sns] by (simp add: countType_def)
  have total: "sum_list (map realOf ?lw) = logitProbSum (nodes g)"
  proof -
    have "sum_list (map realOf ?lw) = sum_list (map realOf ?ps)"
      unfolding lw by (simp add: sum_list_replicate)
    also have "\<dots> = logitProbSum ?sns"
      by (simp add: logitProbSum_def comp_def)
    finally show ?thesis
      by (simp add: logitProbSum_sortNodes)
  qed
  have infl: "computeInfluence ?Z ?lw 1000 = Inr (replicate ?n (Fin 0))"
    using fin len n(2) by (rule computeInfluence_zero)
  have scores: "deriveScores ?sns ?Z ?lw (replicate ?n (Fin 0))
        = \<lparr>replacementScore = Fin 0,
           completenessScore = (if logitProbSum (nodes g) = 0 then Fin 0 else Fin 1)\<rparr>"
    using deriveScores_zero [OF len fin, of ?sns] by (simp add: total)
  show ?thesis
    by (rule compute_staged [OF rec merged _ normalizeMatrix_zero _ scores])
       (simp_all add: infl)
qed

theorem compute_without_edges_witness:
  "finiteLogitProbs [nodeE, nodeL]
   \<and> computeGraphScoresFromGraphData \<lparr>nodes = [nodeE, nodeL], links = []\<rparr> [''E'']
       = Inr \<lparr>replacementScore = Fin 0, completenessScore = Fin 1\<rparr>
   \<and> finiteLogitProbs [nodeE]
   \<and> computeGraphScoresFromGraphData \<lparr>nodes = [nodeE], links = []\<rparr> [''E'']
       = Inr \<lparr>replacementScore = Fin 0, completenessScore = Fin 0\<rparr>"
proof -
  have fin: "finiteLogitProbs [nodeE, nodeL]" "finiteLogitProbs [nodeE]"
    by (simp_all add: finiteLogitProbs_def nodeE_def nodeL_def mkNode_def)
  have total: "logitProbSum [nodeE, nodeL] = 1" "logitProbSum [nodeE] = 0"
    by (simp_all add: logitProbSum_def nodeE_def nodeL_def mkNode_def)
  show ?thesis
    using fin total
      compute_without_edges [of "\<lparr>nodes = [nodeE, nodeL], links = []\<rparr>" "[''E'']"]
      compute_without_edges [of "\<lparr>nodes = [nodeE], links = []\<rparr>" "[''E'']"]
    by simp
qed

text \<open>
  C4, as the specification words it, fails: for the graph whose only node is a logit
  node of probability \<open>1\<close>, without edges, the completeness score is \<open>1\<close>.
\<close>

theorem compute_without_edges_counterexample:
  "nodes \<lparr>nodes = [nodeL], links = []\<rparr> \<noteq> []
   \<and> links \<lparr>nodes = [nodeL], links = []\<rparr> = []
   \<and> computeGraphScoresFromGraphData \<lparr>nodes = [nodeL], links = []\<rparr> []
       = Inr \<lparr>replacementScore = Fin 0, completenessScore = Fin 1\<rparr>
   \<and> Fin 1 \<noteq> Fin 0"
  by code_simp

section \<open>A graph with at least one node\<close>

lemma influenceLoop_error:
  "length cur = length (A ! 0) \<Longrightarrow> length (A ! 0) \<le> length A \<Longrightarrow> it \<le> maxIter \<Longrightarrow>
   influenceLoop A maxIter cur infl it = Inl e \<Longrightarrow> e = Error (convergenceMessage maxIter)"
proof (induction A maxIter cur infl it rule: influenceLoop.induct)
  case (1 A maxIter cur infl it)
  show ?case
  proof (cases "hasNonZero cur")
    case False
    then show ?thesis
      using "1.prems"(4) by (simp add: influenceLoop_done)
  next
    case True
    show ?thesis
    proof (cases "maxIter \<le> it")
      case True
      with \<open>hasNonZero cur\<close> "1.prems"(3,4) show ?thesis
        by (simp add: influenceLoop_ceiling)
    next
      case False
      have missing: "\<not> rowsMissing A cur"
        using "1.prems"(1,2) by (simp add: rowsMissing_def)
      have step: "influenceLoop A maxIter cur infl it
            = influenceLoop A maxIter (applyMatrix A cur) (addVector infl (applyMatrix A cur)) (Suc it)"
        using True False "1.prems"(1,2) by (intro influenceLoop_step) simp_all
      show ?thesis
      proof (rule "1.IH")
        show "list_ex (\<lambda>val. val \<noteq> Fin 0) cur"
          using True by (simp add: hasNonZero_def)
        show "\<not> maxIter \<le> it" by (rule False)
        show "\<not> rowsMissing A cur" by (rule missing)
        show "applyMatrix A cur = applyMatrix A cur" ..
        show "length (applyMatrix A cur) = length (A ! 0)"
          by (rule length_applyMatrix)
        show "length (A ! 0) \<le> length A" by (rule "1.prems"(2))
        show "it + 1 \<le> maxIter" using False by simp
        show "influenceLoop A maxIter (applyMatrix A cur)
                (map (\<lambda>i. infl ! i + applyMatrix A cur ! i) [0..<length infl]) (it + 1) = Inl e"
          using "1.prems"(4) step by (simp add: addVector_def)
      qed
    qed
  qed
qed

lemma length_normalizeRow: "length (normalizeRow row) = length row"
  by (simp add: normalizeRow_def Let_def)

lemma squareMatrix_normalizeMatrix: "squareMatrix n m \<Longrightarrow> squareMatrix n (normalizeMatrix m)"
  by (simp add: squareMatrix_def normalizeMatrix_def list_all_length length_normalizeRow)

lemma reconstructAdjacencyMatrix_square:
  assumes "list_all (\<lambda>e. \<not> edgeThrows (nodeIdToIdx (sortNodes ns)) e) edges"
  shows "\<exists>m. reconstructAdjacencyMatrix ns edges = Inr (m, sortNodes ns) \<and> squareMatrix (length ns) m"
proof -
  let ?n = "length (sortNodes ns)"
  have range: "\<forall>k i. nodeIdToIdx (sortNodes ns) k = Some i \<longrightarrow> i < ?n"
    by (simp add: nodeIdToIdx_Some_iff)
  obtain m where "addEdges (nodeIdToIdx (sortNodes ns)) edges (replicate ?n (replicate ?n (Fin 0))) = Inr m"
      "squareMatrix ?n m"
    using addEdges_returns [OF squareMatrix_replicate range assms] by blast
  then show ?thesis
    by (simp add: reconstructAdjacencyMatrix_def Let_def length_sortNodes)
qed

lemma computeInfluence_square_error:
  assumes "squareMatrix n A" and "0 < n" and "length lw = n"
    and "computeInfluence A lw 1000 = Inl e"
  shows "e = Error ''Influence computation failed to converge after 1000 iterations''"
proof -
  have len: "length A = n" "length (A ! 0) = n"
    using assms(1,2) by (simp_all add: squareMatrix_def list_all_length)
  then have "A \<noteq> []"
    using assms(2) by auto
  then have "influenceLoop A 1000 (applyMatrix A lw) (applyMatrix A lw) 0 = Inl e"
    using assms(3,4) len by (simp add: computeInfluence_def rowsMissing_def Let_def)
  then have "e = Error (convergenceMessage 1000)"
    using len by (intro influenceLoop_error [of _ A 0 1000]) (simp_all add: length_applyMatrix)
  then show ?thesis
    by (simp add: convergenceMessage_1000)
qed

text \<open>
  On a graph with at least one node and without an edge on which the code throws, the
  call returns scores or throws the convergence failure; on a graph with such an edge it
  ends in a \<^verbatim>\<open>TypeError\<close>.
\<close>

lemma compute_nonempty_graph:
  assumes "nodes g \<noteq> []"
    and "list_all (\<lambda>e. \<not> edgeThrows (nodeIdToIdx (sortNodes (nodes g))) e) (links g)"
  shows "(\<exists>scores. computeGraphScoresFromGraphData g pinnedIds = Inr scores)
       \<or> computeGraphScoresFromGraphData g pinnedIds
           = Inl (Error ''Influence computation failed to converge after 1000 iterations'')"
proof -
  let ?sns = "sortNodes (nodes g)"
  let ?n = "length (nodes g)"
  obtain m0 where rec: "reconstructAdjacencyMatrix (nodes g) (links g) = Inr (m0, ?sns)"
    and sq0: "squareMatrix ?n m0"
    using reconstructAdjacencyMatrix_square [OF assms(2)] by blast
  let ?m = "mergeStage pinnedIds ?sns m0"
  let ?lw = "buildLogitWeights ?sns (length ?m)"
  have sq: "squareMatrix ?n ?m"
    using sq0 by (rule squareMatrix_mergeStage)
  then have lenm: "length ?m = ?n"
    by (simp add: squareMatrix_def)
  have lw: "length ?lw = ?n"
  proof -
    have "?lw = buildLogitWeights ?sns (length ?sns)"
      by (simp add: lenm length_sortNodes)
    also have "length \<dots> = length ?sns"
      using countType_le [of "''logit''" ?sns]
      by (subst buildLogitWeights_eq) (simp_all add: countType_def)
    finally show ?thesis
      by (simp add: length_sortNodes)
  qed
  have n: "0 < ?n"
    using assms(1) by simp
  show ?thesis
  proof (cases "computeInfluence (normalizeMatrix ?m) ?lw 1000")
    case (Inl e)
    then have "e = Error ''Influence computation failed to converge after 1000 iterations''"
      by (rule computeInfluence_square_error [OF squareMatrix_normalizeMatrix [OF sq] n lw])
    then show ?thesis
      using Inl rec by (simp add: computeGraphScoresFromGraphData_def Let_def)
  next
    case (Inr infl)
    then show ?thesis
      using rec by (simp add: computeGraphScoresFromGraphData_def Let_def)
  qed
qed

lemma compute_throwing_edge:
  "list_ex (edgeThrows (nodeIdToIdx (sortNodes (nodes g)))) (links g) \<Longrightarrow>
   computeGraphScoresFromGraphData g pinnedIds = Inl TypeError"
  by (simp add: computeGraphScoresFromGraphData_def reconstructAdjacencyMatrix_throws)

section \<open>The empty graph\<close>

lemma addEdges_no_nodes:
  "addEdges Map.empty edges [] = Inl TypeError \<or> addEdges Map.empty edges [] = Inr []"
proof (induction edges)
  case Nil
  then show ?case by simp
next
  case (Cons e edges)
  have "addEdge Map.empty e [] = Inl TypeError \<or> addEdge Map.empty e [] = Inr []"
    by (simp add: addEdge_def getProperty_def Let_def)
  then show ?case
    using Cons by auto
qed

text \<open>
  C3. On the graph without nodes the matrix is empty, \<^verbatim>\<open>computeInfluence\<close> reads
  \<^verbatim>\<open>A[0].length\<close> of it, and the call ends in a \<^verbatim>\<open>TypeError\<close>, whatever the edges and
  the pinned identifiers are: no scores are returned, and the error is not the
  convergence failure.
\<close>

theorem compute_empty_graph_TypeError:
  "computeGraphScoresFromGraphData \<lparr>nodes = [], links = edges\<rparr> pinnedIds = Inl TypeError"
  using addEdges_no_nodes [of edges]
  by (auto simp: computeGraphScoresFromGraphData_def reconstructAdjacencyMatrix_def sortNodes_def
      nodeIdToIdx_def mergeStage_def mergePass_def normalizeMatrix_def computeInfluence_def Let_def)

end
